theory Spec2Isabelle
  imports Complex_Main "HOL-Library.Sublist"
begin

section \<open>JavaScript values\<close>

text \<open>
  A value of TypeScript type \<open>string | null\<close>, or a string field of a parsed JSON object
  that may be absent, is a \<open>string option\<close>: \<open>None\<close> stands for \<open>null\<close> and
  \<open>undefined\<close>. Characters are eight bits wide, so the strings of the model are the
  Latin-1 strings.
\<close>

type_synonym js_string = "string option"

definition truthy :: "js_string \<Rightarrow> bool" where
  \<comment> \<open>JavaScript truthiness of a string, null or undefined: only a non-empty string is truthy.\<close>
  "truthy v = (case v of None \<Rightarrow> False | Some s \<Rightarrow> s \<noteq> [])"

definition or_else :: "js_string \<Rightarrow> string \<Rightarrow> string" where
  \<comment> \<open>\<open>v || d\<close> for a string default \<open>d\<close>.\<close>
  "or_else v d = (case v of None \<Rightarrow> d | Some s \<Rightarrow> if s = [] then d else s)"

definition isWhiteSpace :: "char \<Rightarrow> bool" where
  \<comment> \<open>ECMAScript WhiteSpace and LineTerminator code points below 256:
      TAB, LF, VT, FF, CR, SP and NBSP.\<close>
  "isWhiteSpace c = (of_char c \<in> {9, 10, 11, 12, 13, 32, 160 :: nat})"

definition trim :: "string \<Rightarrow> string" where
  \<comment> \<open>\<open>String.prototype.trim\<close>: white space removed from both ends.\<close>
  "trim s = rev (dropWhile isWhiteSpace (rev (dropWhile isWhiteSpace s)))"

datatype js_error = TypeError | InvalidStateError

section \<open>HR dashboard (src/frontend/src/app/hr/page.tsx)\<close>

text \<open>The interface \<open>CandidateWithAssessment\<close> (lines 19-38) and its two nested object types.\<close>

record candidate =
  cand_id :: string
  cand_name :: string
  cand_email :: string
  job_role :: string
  status :: string
  created_at :: string

record assessment_report =
  report_id :: string
  overall_score :: real
  technical_score :: real
  behavioral_score :: real
  recommendation :: string
  hr_reviewed :: bool
  hr_decision :: js_string

record entry =
  candidate :: candidate
  latest_report :: "assessment_report option"
  sessions_count :: int

text \<open>The filter state: \<open>'all' | 'pending' | 'approved' | 'rejected'\<close>.\<close>

datatype filter_kind = FilterAll | FilterPending | FilterApproved | FilterRejected

definition latest_decision :: "entry \<Rightarrow> js_string" where
  \<comment> \<open>\<open>c.latest_report?.hr_decision\<close>\<close>
  "latest_decision c = (case latest_report c of None \<Rightarrow> None | Some r \<Rightarrow> hr_decision r)"

definition filter_callback :: "filter_kind \<Rightarrow> entry \<Rightarrow> bool" where
  \<comment> \<open>The arrow function given to \<open>candidates.filter\<close> (lines 111-117), branch by branch.\<close>
  "filter_callback f c =
     (if f = FilterAll then True
      else if f = FilterPending then status (candidate c) = ''hr_review''
      else if f = FilterApproved then latest_decision c = Some ''approve''
      else if f = FilterRejected then latest_decision c = Some ''reject''
      else True)"

definition filteredCandidates :: "filter_kind \<Rightarrow> entry list \<Rightarrow> entry list" where
  "filteredCandidates f candidates = filter (filter_callback f) candidates"

text \<open>
  The reference filter, written from the words of the claim: all entries; those in HR
  review; those whose latest report is approved; those whose latest report is rejected.
\<close>

definition has_decision :: "string \<Rightarrow> entry \<Rightarrow> bool" where
  "has_decision d c =
     (case latest_report c of None \<Rightarrow> False | Some r \<Rightarrow> hr_decision r = Some d)"

fun reference_filter :: "filter_kind \<Rightarrow> entry list \<Rightarrow> entry list" where
  "reference_filter FilterAll cs = cs"
| "reference_filter FilterPending cs = [c \<leftarrow> cs. status (candidate c) = ''hr_review'']"
| "reference_filter FilterApproved cs = [c \<leftarrow> cs. has_decision ''approve'' c]"
| "reference_filter FilterRejected cs = [c \<leftarrow> cs. has_decision ''reject'' c]"

subsection \<open>Statistics cards\<close>

text \<open>
  The interface \<open>DashboardStats\<close> (lines 11-17). The page stores the parsed body of
  \<open>GET /api/hr/dashboard/stats\<close> as it arrives, so what the cards read is a JSON object
  with numeric fields: an association list from field names to numbers.
\<close>

record DashboardStats =
  total_candidates :: int
  pending_review :: int
  approved :: int
  rejected :: int
  in_progress :: int

type_synonym json_numbers = "(string \<times> int) list"

definition stats_object :: "DashboardStats \<Rightarrow> json_numbers" where
  \<comment> \<open>A value of the interface as the JSON object it is at run time.\<close>
  "stats_object d =
     [(''total_candidates'', total_candidates d), (''pending_review'', pending_review d),
      (''approved'', approved d), (''rejected'', rejected d), (''in_progress'', in_progress d)]"

definition stat_value :: "json_numbers option \<Rightarrow> string \<Rightarrow> int" where
  \<comment> \<open>\<open>stats?.field || 0\<close>: zero while the statistics are not loaded, for an absent field
      and for the number zero.\<close>
  "stat_value stats field =
     (case stats of None \<Rightarrow> 0
      | Some obj \<Rightarrow> (case map_of obj field of None \<Rightarrow> 0 | Some n \<Rightarrow> if n = 0 then 0 else n))"

definition stat_cards :: "json_numbers option \<Rightarrow> (string \<times> int) list" where
  \<comment> \<open>The five \<open>StatCard\<close> elements (lines 153-184) in the order they are rendered:
      label and value.\<close>
  "stat_cards stats =
     [(''Total Candidates'', stat_value stats ''total_candidates''),
      (''Pending Review'', stat_value stats ''pending_review''),
      (''In Progress'', stat_value stats ''in_progress''),
      (''Approved'', stat_value stats ''approved''),
      (''Rejected'', stat_value stats ''rejected'')]"

subsection \<open>Decision buttons\<close>

text \<open>The decisions \<open>handleDecision\<close> accepts: \<open>'approve' | 'reject' | 'hold'\<close>.\<close>

datatype decision = Approve | Reject | Hold

fun decision_string :: "decision \<Rightarrow> string" where
  "decision_string Approve = ''approve''"
| "decision_string Reject = ''reject''"
| "decision_string Hold = ''hold''"

text \<open>
  What a click handler of the page does: it opens or closes the detail modal, or it calls
  \<open>handleDecision\<close> with a report identifier and a decision. A handler that reads a
  field of \<open>null\<close> throws a \<open>TypeError\<close> instead.
\<close>

datatype click = SetSelectedCandidate "entry option" | HandleDecision string decision

definition latest_report_id :: "entry \<Rightarrow> js_error + string" where
  \<comment> \<open>\<open>item.latest_report!.id\<close>: the assertion \<open>!\<close> is erased by the compiler, so the
      expression reads \<open>id\<close> of whatever \<open>latest_report\<close> holds.\<close>
  "latest_report_id item =
     (case latest_report item of None \<Rightarrow> Inl TypeError | Some r \<Rightarrow> Inr (report_id r))"

definition decision_click :: "entry \<Rightarrow> decision \<Rightarrow> js_error + click" where
  \<comment> \<open>\<open>() => handleDecision(item.latest_report!.id, decision)\<close>\<close>
  "decision_click item d =
     (case latest_report_id item of Inl e \<Rightarrow> Inl e | Inr rid \<Rightarrow> Inr (HandleDecision rid d))"

definition decision_guard :: "entry \<Rightarrow> bool" where
  \<comment> \<open>\<open>item.latest_report && !item.latest_report.hr_decision\<close>\<close>
  "decision_guard item =
     (case latest_report item of None \<Rightarrow> False | Some r \<Rightarrow> \<not> truthy (hr_decision r))"

text \<open>
  The buttons of a table row (lines 262-286) and of the detail modal (lines 304-309 and
  354-384), each with its title, or its label where it has no title, and with what its
  handler does when clicked. The handlers close over the entry of the render that
  created them, and entries are never mutated, so the handler of a rendered button
  evaluates on the entry that passed the guard.
\<close>

definition table_actions :: "entry \<Rightarrow> (string \<times> (js_error + click)) list" where
  "table_actions item =
     (''View Details'', Inr (SetSelectedCandidate (Some item))) #
     (if decision_guard item
      then [(''Approve'', decision_click item Approve), (''Reject'', decision_click item Reject)]
      else [])"

definition modal_actions :: "entry option \<Rightarrow> (string \<times> (js_error + click)) list" where
  "modal_actions selectedCandidate =
     (case selectedCandidate of
        None \<Rightarrow> []
      | Some c \<Rightarrow>
          (''Close'', Inr (SetSelectedCandidate None)) #
          (if decision_guard c
           then [(''Approve'', decision_click c Approve), (''Hold'', decision_click c Hold),
                 (''Reject'', decision_click c Reject)]
           else []))"

section \<open>Realtime clients: the frames and the socket\<close>

text \<open>
  A frame is the parsed JSON object of one WebSocket message. Only the fields the two
  pages read or write are kept; an absent field is \<open>None\<close>, and \<open>is_complete\<close> is the
  truthiness of that field.
\<close>

record frame =
  f_type :: js_string
  f_message :: js_string
  f_content :: js_string
  f_text :: js_string
  f_agent :: js_string
  f_is_complete :: bool
  f_avatar_state :: js_string
  f_audio_base64 :: js_string
  f_format :: js_string

definition empty_frame :: frame where
  "empty_frame = \<lparr>f_type = None, f_message = None, f_content = None, f_text = None,
     f_agent = None, f_is_complete = False, f_avatar_state = None, f_audio_base64 = None,
     f_format = None\<rparr>"

definition message_frame :: "string \<Rightarrow> frame" where
  \<comment> \<open>\<open>{ type: 'message', content }\<close>\<close>
  "message_frame content = empty_frame\<lparr>f_type := Some ''message'', f_content := Some content\<rparr>"

definition end_frame :: frame where
  \<comment> \<open>\<open>{ type: 'end' }\<close>\<close>
  "end_frame = empty_frame\<lparr>f_type := Some ''end''\<rparr>"

definition audio_frame :: "string \<Rightarrow> frame" where
  \<comment> \<open>\<open>{ type: 'audio', audio_base64, format: 'webm' }\<close>\<close>
  "audio_frame base64Audio =
     empty_frame\<lparr>f_type := Some ''audio'', f_audio_base64 := Some base64Audio,
                 f_format := Some ''webm''\<rparr>"

text \<open>
  A browser WebSocket: the endpoint it was opened on (\<open>/ws/chat/sid\<close> or
  \<open>/ws/voice/sid\<close>) and its \<open>readyState\<close>.
\<close>

datatype channel = ChatChannel | VoiceChannel

datatype ready_state = CONNECTING | OPEN | CLOSING | CLOSED

record websocket =
  ws_channel :: channel
  ws_session :: string
  ws_ready :: ready_state

text \<open>
  What a handler does to the world outside the page: a frame put on a socket, a socket
  closed, the HTTP request that ends a session, a console line, and the calls of the
  voice page's playback helpers and of \<open>getUserMedia\<close>.
\<close>

datatype effect =
    WsSend channel string frame
  | WsClose channel string
  | PostSessionEnd string
  | ConsoleLog js_string
  | ConsoleError js_string
  | PlayAudio string
  | SpeakText js_string
  | GetUserMedia
  | StopTracks

text \<open>
  The result of a handler: the page state it leaves, its effects in order, and the
  exception it threw, if any.
\<close>

type_synonym 's result = "'s \<times> effect list \<times> js_error option"

definition ws_send :: "websocket \<Rightarrow> frame \<Rightarrow> js_error + effect list" where
  \<comment> \<open>\<open>WebSocket.send\<close>: throws while the socket is connecting, transmits when it is open,
      and discards the data silently once it is closing or closed.\<close>
  "ws_send ws d =
     (case ws_ready ws of
        CONNECTING \<Rightarrow> Inl InvalidStateError
      | OPEN \<Rightarrow> Inr [WsSend (ws_channel ws) (ws_session ws) d]
      | CLOSING \<Rightarrow> Inr []
      | CLOSED \<Rightarrow> Inr [])"

definition ws_close :: "websocket \<Rightarrow> websocket \<times> effect list" where
  \<comment> \<open>\<open>WebSocket.close\<close>: starts the closing handshake unless it has started already.\<close>
  "ws_close ws =
     (if ws_ready ws = CLOSING \<or> ws_ready ws = CLOSED then (ws, [])
      else (ws\<lparr>ws_ready := CLOSING\<rparr>, [WsClose (ws_channel ws) (ws_session ws)]))"

fun sent_frames :: "effect list \<Rightarrow> frame list" where
  "sent_frames [] = []"
| "sent_frames (WsSend c sid d # es) = d # sent_frames es"
| "sent_frames (e # es) = sent_frames es"

section \<open>Chat page (\<open>ChatPage\<close>, src/frontend/src/app/voice/page.tsx from line 390)\<close>

datatype msg_role = User | Assistant

text \<open>
  The interface \<open>Message\<close>; \<open>id\<close> and \<open>timestamp\<close> are read from the clock and play no
  part in what the page sends, so they are left out.
\<close>

record message =
  msg_role :: msg_role
  msg_content :: js_string
  msg_agent :: js_string

record chat_state =
  chat_messages :: "message list"
  chat_inputValue :: string
  chat_isConnected :: bool
  chat_isTyping :: bool
  chat_sessionId :: js_string
  chat_currentAgent :: string
  chat_isComplete :: bool
  chat_wsRef :: "websocket option"

definition chat_initial :: chat_state where
  "chat_initial = \<lparr>chat_messages = [], chat_inputValue = [], chat_isConnected = False,
     chat_isTyping = False, chat_sessionId = None, chat_currentAgent = ''profile_analyzer'',
     chat_isComplete = False, chat_wsRef = None\<rparr>"

definition chat_onmessage :: "string \<Rightarrow> frame \<Rightarrow> chat_state \<Rightarrow> chat_state \<times> effect list" where
  \<comment> \<open>\<open>ws.onmessage\<close> of \<open>connectWebSocket(sid)\<close> (lines 478-504): the if-else chain on
      \<open>data.type\<close>.\<close>
  "chat_onmessage sid d st =
     (if f_type d = Some ''typing'' then
        (st\<lparr>chat_isTyping := True, chat_currentAgent := or_else (f_agent d) ''assistant''\<rparr>, [])
      else if f_type d = Some ''response'' then
        (let st' = st\<lparr>chat_isTyping := False,
               chat_messages := chat_messages st @
                 [\<lparr>msg_role = Assistant, msg_content = f_content d, msg_agent = f_agent d\<rparr>],
               chat_currentAgent := or_else (f_agent d) ''assistant''\<rparr>
         in if f_is_complete d
            then (st'\<lparr>chat_isComplete := True\<rparr>, [PostSessionEnd sid])
            else (st', []))
      else if f_type d = Some ''ready'' then (st, [ConsoleLog (f_message d)])
      else (st, []))"

definition chat_sendMessage :: "chat_state \<Rightarrow> chat_state result" where
  \<comment> \<open>\<open>sendMessage\<close> (lines 528-547).\<close>
  "chat_sendMessage st =
     (if \<not> truthy (Some (trim (chat_inputValue st))) \<or> chat_wsRef st = None \<or> \<not> chat_isConnected st
      then (st, [], None)
      else
        (case chat_wsRef st of
           None \<Rightarrow> (st, [], None)
         | Some ws \<Rightarrow>
            (let st' = st\<lparr>chat_messages := chat_messages st @
                   [\<lparr>msg_role = User, msg_content = Some (chat_inputValue st), msg_agent = None\<rparr>]\<rparr>
             in case ws_send ws (message_frame (chat_inputValue st)) of
                  Inl e \<Rightarrow> (st', [], Some e)
                | Inr sent \<Rightarrow> (st'\<lparr>chat_inputValue := []\<rparr>, sent, None))))"

definition post_session_end :: "js_string \<Rightarrow> effect list" where
  \<comment> \<open>\<open>if (sessionId) fetch(.../session/${sessionId}/end, POST)\<close>\<close>
  "post_session_end sessionId =
     (case sessionId of None \<Rightarrow> [] | Some sid \<Rightarrow> if sid = [] then [] else [PostSessionEnd sid])"

definition chat_endSession :: "chat_state \<Rightarrow> chat_state result" where
  \<comment> \<open>\<open>endSession\<close> (lines 556-567), the handler of the End button: the \<open>end\<close> frame
      and the close of the socket, then the HTTP request that ends the session. An
      exception of \<open>send\<close> leaves the rest undone.\<close>
  "chat_endSession st =
     (case chat_wsRef st of
        None \<Rightarrow> (st, post_session_end (chat_sessionId st), None)
      | Some ws \<Rightarrow>
          (case ws_send ws end_frame of
             Inl e \<Rightarrow> (st, [], Some e)
           | Inr sent \<Rightarrow>
               (let (ws', closed) = ws_close ws
                in (st\<lparr>chat_wsRef := Some ws'\<rparr>,
                    sent @ closed @ post_session_end (chat_sessionId st), None))))"

text \<open>
  The events of the chat page: the answer to \<open>POST /api/assessment/start\<close> (session
  identifier and first message, if any), the socket's \<open>open\<close>, \<open>message\<close>, \<open>close\<close> and
  \<open>error\<close> events, typing into the input, Send (the Enter key in the input, which the
  disabled input does not deliver; the button is disabled on more states) and End.
\<close>

datatype chat_event =
    ChatSessionStarted string "message option"
  | ChatOpen
  | ChatMessage frame
  | ChatClose
  | ChatError
  | ChatInput string
  | ChatSend
  | ChatEnd

definition chat_input_disabled :: "chat_state \<Rightarrow> bool" where
  \<comment> \<open>\<open>disabled={!isConnected || isTyping || isComplete}\<close> of the text input (line 728).\<close>
  "chat_input_disabled st = (\<not> chat_isConnected st \<or> chat_isTyping st \<or> chat_isComplete st)"

fun chat_step :: "chat_event \<Rightarrow> chat_state \<Rightarrow> chat_state result" where
  "chat_step (ChatSessionStarted sid initialMsg) st =
     (st\<lparr>chat_sessionId := Some sid,
         chat_messages := (case initialMsg of None \<Rightarrow> chat_messages st | Some m \<Rightarrow> [m]),
         chat_wsRef := Some \<lparr>ws_channel = ChatChannel, ws_session = sid, ws_ready = CONNECTING\<rparr>\<rparr>,
      [], None)"
| "chat_step ChatOpen st =
     (st\<lparr>chat_isConnected := True,
         chat_wsRef := map_option (\<lambda>ws. ws\<lparr>ws_ready := OPEN\<rparr>) (chat_wsRef st)\<rparr>,
      [ConsoleLog (Some ''WebSocket connected'')], None)"
| "chat_step (ChatMessage d) st =
     (case chat_wsRef st of
        None \<Rightarrow> (st, [], None)
      | Some ws \<Rightarrow> (let (st', es) = chat_onmessage (ws_session ws) d st in (st', es, None)))"
| "chat_step ChatClose st =
     (st\<lparr>chat_isConnected := False,
         chat_wsRef := map_option (\<lambda>ws. ws\<lparr>ws_ready := CLOSED\<rparr>) (chat_wsRef st)\<rparr>,
      [ConsoleLog (Some ''WebSocket disconnected'')], None)"
| "chat_step ChatError st = (st, [ConsoleError (Some ''WebSocket error'')], None)"
| "chat_step (ChatInput s) st =
     (if chat_input_disabled st then (st, [], None) else (st\<lparr>chat_inputValue := s\<rparr>, [], None))"
| "chat_step ChatSend st =
     (if chat_input_disabled st then (st, [], None) else chat_sendMessage st)"
| "chat_step ChatEnd st = chat_endSession st"

fun chat_run :: "chat_event list \<Rightarrow> chat_state \<Rightarrow> chat_state \<times> effect list" where
  \<comment> \<open>Handlers run one after the other; an exception ends its own handler only.\<close>
  "chat_run [] st = (st, [])"
| "chat_run (e # es) st =
     (let (st', fx, thrown) = chat_step e st; (st'', fx') = chat_run es st'
      in (st'', fx @ fx'))"

subsection \<open>Message kinds\<close>

text \<open>
  The message kinds the specification lists for the realtime turn protocol, and the
  kinds the two pages exchange with the server: the listed ones, \<open>typing\<close> (server to
  chat page) and \<open>audio\<close> (voice page to server).
\<close>

definition protocol_kinds :: "string list" where
  "protocol_kinds =
     [''ready'', ''message'', ''transcription'', ''response'', ''status'', ''error'', ''end'']"

definition client_kinds :: "string list" where
  "client_kinds = protocol_kinds @ [''typing'', ''audio'']"

definition has_kind :: "string list \<Rightarrow> frame \<Rightarrow> bool" where
  "has_kind kinds d = (case f_type d of None \<Rightarrow> False | Some k \<Rightarrow> k \<in> set kinds)"

definition error_frame :: "string \<Rightarrow> frame" where
  \<comment> \<open>\<open>{ type: 'error', message }\<close>, the frame of the protocol for a failed turn.\<close>
  "error_frame m = empty_frame\<lparr>f_type := Some ''error'', f_message := Some m\<rparr>"

definition typing_frame :: frame where
  \<comment> \<open>\<open>{ type: 'typing' }\<close>\<close>
  "typing_frame = empty_frame\<lparr>f_type := Some ''typing''\<rparr>"

section \<open>Voice page (\<open>VoicePage\<close>, src/frontend/src/app/voice/page.tsx, lines 1-389)\<close>

record transcript_item =
  ti_role :: msg_role
  ti_text :: js_string

text \<open>
  The state of a \<open>MediaRecorder\<close>. The page keeps only the recorder created last in
  \<open>mediaRecorderRef\<close>; the model keeps every recorder the page has created, in creation
  order, so that a recorder the page has lost track of is still there.
\<close>

datatype recorder_state = Inactive | Recording

record voice_state =
  voice_isConnected :: bool
  voice_isRecording :: bool
  voice_isMuted :: bool
  avatarState :: js_string
  transcript :: "transcript_item list"
  voice_sessionId :: js_string
  currentText :: js_string
  voice_isComplete :: bool
  voice_wsRef :: "websocket option"
  recorders :: "recorder_state list"
  mediaRecorderRef :: "nat option"
  pending_getUserMedia :: nat

definition voice_initial :: voice_state where
  "voice_initial = \<lparr>voice_isConnected = False, voice_isRecording = False, voice_isMuted = False,
     avatarState = Some ''idle'', transcript = [], voice_sessionId = None, currentText = Some [],
     voice_isComplete = False, voice_wsRef = None, recorders = [], mediaRecorderRef = None,
     pending_getUserMedia = 0\<rparr>"

definition play_or_speak :: "js_string \<Rightarrow> js_string \<Rightarrow> effect list" where
  \<comment> \<open>\<open>if (data.audio_base64) playAudio(data.audio_base64) else speakText(text)\<close>\<close>
  "play_or_speak audio text =
     (case audio of
        None \<Rightarrow> [SpeakText text]
      | Some a \<Rightarrow> if a = [] then [SpeakText text] else [PlayAudio a])"

definition voice_onmessage :: "frame \<Rightarrow> voice_state \<Rightarrow> voice_state \<times> effect list" where
  \<comment> \<open>\<open>ws.onmessage\<close> (lines 73-133): the switch on \<open>data.type\<close>, which has no default
      branch.\<close>
  "voice_onmessage d st =
     (if f_type d = Some ''ready'' then
        (st\<lparr>currentText := f_message d, avatarState := Some ''speaking'',
            transcript := transcript st @ [\<lparr>ti_role = Assistant, ti_text = f_message d\<rparr>]\<rparr>,
         play_or_speak (f_audio_base64 d) (f_message d))
      else if f_type d = Some ''status'' then
        (st\<lparr>avatarState := f_avatar_state d,
            currentText := (if truthy (f_message d) then f_message d else currentText st)\<rparr>, [])
      else if f_type d = Some ''transcription'' then
        (st\<lparr>transcript := transcript st @ [\<lparr>ti_role = User, ti_text = f_text d\<rparr>]\<rparr>, [])
      else if f_type d = Some ''response'' then
        (st\<lparr>currentText := f_text d, avatarState := Some ''speaking'',
            transcript := transcript st @ [\<lparr>ti_role = Assistant, ti_text = f_text d\<rparr>],
            voice_isComplete := (if f_is_complete d then True else voice_isComplete st)\<rparr>,
         play_or_speak (f_audio_base64 d) (f_text d))
      else if f_type d = Some ''error'' then
        (st\<lparr>avatarState := Some ''idle''\<rparr>, [ConsoleError (f_message d)])
      else (st, []))"

definition mic_disabled :: "voice_state \<Rightarrow> bool" where
  \<comment> \<open>\<open>disabled={!isConnected || avatarState === 'speaking' || avatarState === 'thinking'
      || isComplete}\<close> of the microphone button (line 329).\<close>
  "mic_disabled st =
     (\<not> voice_isConnected st \<or> avatarState st = Some ''speaking'' \<or>
      avatarState st = Some ''thinking'' \<or> voice_isComplete st)"

definition startRecording_call :: "voice_state \<Rightarrow> voice_state result" where
  \<comment> \<open>\<open>startRecording\<close> (lines 176-211) up to its \<open>await\<close>: the request for the microphone. The function is
      suspended there and nothing of the page state has changed.\<close>
  "startRecording_call st =
     (st\<lparr>pending_getUserMedia := Suc (pending_getUserMedia st)\<rparr>, [GetUserMedia], None)"

definition startRecording_resume :: "voice_state \<Rightarrow> voice_state result" where
  \<comment> \<open>\<open>startRecording\<close> after the \<open>await\<close>, when the stream has arrived: a new recorder is
      created, stored in \<open>mediaRecorderRef\<close> and started.\<close>
  "startRecording_resume st =
     (if pending_getUserMedia st = 0 then (st, [], None)
      else
        (st\<lparr>pending_getUserMedia := pending_getUserMedia st - 1,
            recorders := recorders st @ [Recording],
            mediaRecorderRef := Some (length (recorders st)),
            voice_isRecording := True,
            avatarState := Some ''listening''\<rparr>, [], None))"

definition startRecording_rejected :: "voice_state \<Rightarrow> voice_state result" where
  \<comment> \<open>The \<open>catch\<close> of \<open>startRecording\<close>: the microphone was refused.\<close>
  "startRecording_rejected st =
     (if pending_getUserMedia st = 0 then (st, [], None)
      else (st\<lparr>pending_getUserMedia := pending_getUserMedia st - 1\<rparr>,
            [ConsoleError (Some ''Microphone error'')], None))"

definition stopRecording :: "voice_state \<Rightarrow> voice_state result" where
  \<comment> \<open>\<open>stopRecording\<close> (lines 213-218):
      \<open>if (mediaRecorderRef.current && isRecording) { stop(); setIsRecording(false) }\<close>\<close>
  "stopRecording st =
     (case mediaRecorderRef st of
        None \<Rightarrow> (st, [], None)
      | Some i \<Rightarrow>
          if voice_isRecording st
          then (st\<lparr>recorders := (if i < length (recorders st) then (recorders st)[i := Inactive]
                                   else recorders st),
                   voice_isRecording := False\<rparr>, [], None)
          else (st, [], None))"

definition recorder_onstop :: "string \<Rightarrow> voice_state \<Rightarrow> voice_state result" where
  \<comment> \<open>\<open>mediaRecorder.onstop\<close> (lines 187-202): the recording, as base64, goes to the server when the
      socket is open; the tracks of the stream are stopped.\<close>
  "recorder_onstop base64Audio st =
     (case voice_wsRef st of
        None \<Rightarrow> (st, [StopTracks], None)
      | Some ws \<Rightarrow>
          if ws_ready ws = OPEN
          then (st, [WsSend (ws_channel ws) (ws_session ws) (audio_frame base64Audio), StopTracks], None)
          else (st, [StopTracks], None))"

definition voice_endSession :: "voice_state \<Rightarrow> voice_state result" where
  \<comment> \<open>\<open>endSession\<close> (lines 232-237): \<open>if (wsRef.current) { send({ type: 'end' }); close() }\<close>\<close>
  "voice_endSession st =
     (case voice_wsRef st of
        None \<Rightarrow> (st, [], None)
      | Some ws \<Rightarrow>
          (case ws_send ws end_frame of
             Inl e \<Rightarrow> (st, [], Some e)
           | Inr sent \<Rightarrow>
               (let (ws', closed) = ws_close ws
                in (st\<lparr>voice_wsRef := Some ws'\<rparr>, sent @ closed, None))))"

text \<open>
  The events of the voice page. A handler runs to completion before the next event is
  taken; an \<open>await\<close> ends the running handler, and what follows it runs as an event of
  its own when the promise settles (\<open>VoiceUserMediaGranted\<close>, \<open>VoiceUserMediaDenied\<close>).
  \<open>VoicePlaybackEnded\<close> is the end of the audio, of the utterance or of the three-second
  timer that \<open>playAudio\<close> and \<open>speakText\<close> arm. A click on the disabled microphone button
  is not delivered.
\<close>

datatype voice_event =
    VoiceSessionStarted string
  | VoiceOpen
  | VoiceMessage frame
  | VoiceClose
  | VoicePlaybackEnded
  | VoiceClickMic
  | VoiceUserMediaGranted
  | VoiceUserMediaDenied
  | VoiceRecorderStopped string
  | VoiceClickMute
  | VoiceClickEnd

fun voice_step :: "voice_event \<Rightarrow> voice_state \<Rightarrow> voice_state result" where
  "voice_step (VoiceSessionStarted sid) st =
     (st\<lparr>voice_sessionId := Some sid,
         voice_wsRef := Some \<lparr>ws_channel = VoiceChannel, ws_session = sid, ws_ready = CONNECTING\<rparr>\<rparr>,
      [], None)"
| "voice_step VoiceOpen st =
     (st\<lparr>voice_isConnected := True,
         voice_wsRef := map_option (\<lambda>ws. ws\<lparr>ws_ready := OPEN\<rparr>) (voice_wsRef st)\<rparr>,
      [ConsoleLog (Some ''Voice WebSocket connected'')], None)"
| "voice_step (VoiceMessage d) st =
     (case voice_wsRef st of
        None \<Rightarrow> (st, [], None)
      | Some ws \<Rightarrow> (let (st', es) = voice_onmessage d st in (st', es, None)))"
| "voice_step VoiceClose st =
     (st\<lparr>voice_isConnected := False,
         voice_wsRef := map_option (\<lambda>ws. ws\<lparr>ws_ready := CLOSED\<rparr>) (voice_wsRef st)\<rparr>,
      [ConsoleLog (Some ''Voice WebSocket disconnected'')], None)"
| "voice_step VoicePlaybackEnded st = (st\<lparr>avatarState := Some ''idle''\<rparr>, [], None)"
| "voice_step VoiceClickMic st =
     (if mic_disabled st then (st, [], None)
      else if voice_isRecording st then stopRecording st
      else startRecording_call st)"
| "voice_step VoiceUserMediaGranted st = startRecording_resume st"
| "voice_step VoiceUserMediaDenied st = startRecording_rejected st"
| "voice_step (VoiceRecorderStopped base64Audio) st = recorder_onstop base64Audio st"
| "voice_step VoiceClickMute st = (st\<lparr>voice_isMuted := \<not> voice_isMuted st\<rparr>, [], None)"
| "voice_step VoiceClickEnd st = voice_endSession st"

fun voice_run :: "voice_event list \<Rightarrow> voice_state \<Rightarrow> voice_state \<times> effect list" where
  "voice_run [] st = (st, [])"
| "voice_run (e # es) st =
     (let (st', fx, thrown) = voice_step e st; (st'', fx') = voice_run es st'
      in (st'', fx @ fx'))"

definition capturing :: "voice_state \<Rightarrow> nat" where
  \<comment> \<open>How many recorders are recording: the user utterances being captured.\<close>
  "capturing st = length (filter (\<lambda>r. r = Recording) (recorders st))"

section \<open>The session orchestrator, modelled from the specification\<close>

text \<open>
  The pages above talk to a backend (\<open>backend/app\<close> in the repository's layout) whose
  code is not among the sources. What the claims say about it is settled against the
  definitions of this section, each written from the words of the specification. The
  model is sequential: calls are handled one at a time, so \<open>TurnInProgress\<close> never
  arises, and the clock enters only through the list of idle sessions given to \<open>sweep\<close>.
\<close>

text \<open>
  Modelled from the spec: the states of the session state machine (section 4.1), whose
  code is missing from the sources.
\<close>

datatype stage =
  ProfileAnalysis | TechnicalInterview | BehavioralInterview | Evaluation | HRHandoff | Closed

fun stage_rank :: "stage \<Rightarrow> nat" where
  \<comment> \<open>Modelled from the spec: the fixed order \<open>ProfileAnalysis < TechnicalInterview <
      BehavioralInterview < Evaluation < HRHandoff < Closed\<close> of section 8; the state
      machine itself is missing from the sources.\<close>
  "stage_rank ProfileAnalysis = 0"
| "stage_rank TechnicalInterview = 1"
| "stage_rank BehavioralInterview = 2"
| "stage_rank Evaluation = 3"
| "stage_rank HRHandoff = 4"
| "stage_rank Closed = 5"

fun next_stage :: "stage \<Rightarrow> stage" where
  \<comment> \<open>Modelled from the spec: the next stage in the fixed order (section 4.1);
      \<open>HRHandoff\<close> completes into \<open>Closed\<close>, and \<open>Closed\<close> is terminal.\<close>
  "next_stage ProfileAnalysis = TechnicalInterview"
| "next_stage TechnicalInterview = BehavioralInterview"
| "next_stage BehavioralInterview = Evaluation"
| "next_stage Evaluation = HRHandoff"
| "next_stage HRHandoff = Closed"
| "next_stage Closed = Closed"

definition advance :: "stage \<Rightarrow> bool \<Rightarrow> stage" where
  \<comment> \<open>Modelled from the spec: \<open>advance(currentStage, completionSignal)\<close> of section 4.1,
      the next stage in the fixed order if the signal is true, else the same stage.\<close>
  "advance currentStage completionSignal =
     (if completionSignal then next_stage currentStage else currentStage)"

text \<open>
  Modelled from the spec: the data model of section 3 (Session, Turn, Assessment Report)
  as far as the orchestration contract uses it; the scores of a report, which the agents
  supply, are left out. The backend's models are missing from the sources.
\<close>

datatype modality = ChatModality | VoiceModality

datatype turn_role = CandidateTurn | AgentTurn

record turn =
  turn_role :: turn_role
  turn_stage :: stage
  turn_content :: string
  turn_seq :: nat

record session =
  session_id :: string
  session_candidate :: string
  session_modality :: modality
  session_stage :: stage
  session_turns :: "turn list"

record report =
  report_session :: string
  report_partial :: bool
  report_decision :: "decision option"
  report_notes :: string
  report_reviewed :: bool

record server =
  sessions :: "session list"
  reports :: "report list"

text \<open>Modelled from the spec: the error taxonomy of section 7.\<close>

datatype error =
    SessionNotFound | SessionClosed | TurnInProgress | AgentFailure | InvalidTransition
  | ReportNotFound | DecisionAlreadyRecorded

definition empty_server :: server where
  \<comment> \<open>Modelled from the spec: a fresh registry, with no session and no report.\<close>
  "empty_server = \<lparr>sessions = [], reports = []\<rparr>"

definition find_session :: "server \<Rightarrow> string \<Rightarrow> session option" where
  \<comment> \<open>Modelled from the spec: the registry's \<open>get\<close> (section 4.4).\<close>
  "find_session sv sid = find (\<lambda>s. session_id s = sid) (sessions sv)"

definition stage_of :: "server \<Rightarrow> string \<Rightarrow> stage option" where
  \<comment> \<open>Modelled from the spec: the current stage of a session, if the session exists.\<close>
  "stage_of sv sid = map_option session_stage (find_session sv sid)"

definition reports_of :: "server \<Rightarrow> string \<Rightarrow> report list" where
  \<comment> \<open>Modelled from the spec: the reports made for a session.\<close>
  "reports_of sv sid = filter (\<lambda>r. report_session r = sid) (reports sv)"

definition set_stage :: "string \<Rightarrow> stage \<Rightarrow> server \<Rightarrow> server" where
  \<comment> \<open>Modelled from the spec: the state machine's write of a session's stage.\<close>
  "set_stage sid stg sv =
     sv\<lparr>sessions := map (\<lambda>s. if session_id s = sid then s\<lparr>session_stage := stg\<rparr> else s)
                       (sessions sv)\<rparr>"

definition append_turn :: "string \<Rightarrow> turn_role \<Rightarrow> string \<Rightarrow> server \<Rightarrow> server" where
  \<comment> \<open>Modelled from the spec: a turn is appended with the stage of its production and the
      next sequence number (section 3, Turn).\<close>
  "append_turn sid r content sv =
     sv\<lparr>sessions := map (\<lambda>s. if session_id s = sid
                            then s\<lparr>session_turns := session_turns s @
                                   [\<lparr>turn_role = r, turn_stage = session_stage s,
                                     turn_content = content,
                                     turn_seq = length (session_turns s)\<rparr>]\<rparr>
                            else s) (sessions sv)\<rparr>"

definition finalize :: "string \<Rightarrow> bool \<Rightarrow> server \<Rightarrow> server" where
  \<comment> \<open>Modelled from the spec: report finalization. The report of a session is computed
      once; a forced end synthesizes one, marked partial, only if no report exists yet
      (sections 3 and 4.1).\<close>
  "finalize sid partial sv =
     (if reports_of sv sid = []
      then sv\<lparr>reports := reports sv @
                [\<lparr>report_session = sid, report_partial = partial, report_decision = None,
                  report_notes = [], report_reviewed = False\<rparr>]\<rparr>
      else sv)"

definition forced_end :: "string \<Rightarrow> server \<Rightarrow> server" where
  \<comment> \<open>Modelled from the spec: the forced end of section 4.1, directly to \<open>Closed\<close> from any
      stage, with a partial report if none exists.\<close>
  "forced_end sid sv = finalize sid True (set_stage sid Closed sv)"

definition end_if_active :: "string \<Rightarrow> server \<Rightarrow> server" where
  \<comment> \<open>Modelled from the spec: the forced end applied to a session that exists and is not
      \<open>Closed\<close>; a closed session is frozen (section 4.1).\<close>
  "end_if_active sid sv =
     (case stage_of sv sid of
        None \<Rightarrow> sv
      | Some stg \<Rightarrow> if stg = Closed then sv else forced_end sid sv)"

definition sessions_of_candidate :: "server \<Rightarrow> string \<Rightarrow> string list" where
  \<comment> \<open>Modelled from the spec: the sessions of one candidate (section 4.4).\<close>
  "sessions_of_candidate sv candidateId =
     [session_id s. s \<leftarrow> sessions sv, session_candidate s = candidateId]"

definition startSession :: "string \<Rightarrow> modality \<Rightarrow> string \<Rightarrow> server \<Rightarrow> server" where
  \<comment> \<open>Modelled from the spec: \<open>startSession(candidateId, modality)\<close> and the registry's
      \<open>create\<close> (sections 4.4 and 6). An active session of the same candidate is forcibly
      closed first; the new session starts in \<open>ProfileAnalysis\<close>. The identifier the
      server generates is the argument \<open>sid\<close>.\<close>
  "startSession candidateId m sid sv =
     (let sv' = fold end_if_active (sessions_of_candidate sv candidateId) sv
      in sv'\<lparr>sessions := sessions sv' @
               [\<lparr>session_id = sid, session_candidate = candidateId, session_modality = m,
                 session_stage = ProfileAnalysis, session_turns = []\<rparr>]\<rparr>)"

text \<open>
  Modelled from the spec: the agent of a stage is opaque (section 1);
  \<open>respond(context)\<close> gives a text and a completion flag, or fails after its bounded
  retries. A turn result carries the reply and the stage-change notification (section 4.2).
\<close>

datatype agent_outcome = AgentReply string bool | AgentFailed

record turn_result =
  result_reply :: string
  result_stage :: stage
  result_stage_changed :: bool

definition submitTurn ::
  "string \<Rightarrow> string \<Rightarrow> agent_outcome \<Rightarrow> server \<Rightarrow> (error + turn_result) \<times> server" where
  \<comment> \<open>Modelled from the spec: the algorithm of section 4.2. The inbound turn is appended;
      a failed agent call surfaces as \<open>AgentFailure\<close> with the stage unchanged and no agent
      turn; a reply is appended, the stage advances on the completion flag, and the report
      is finalized on reaching \<open>HRHandoff\<close> or \<open>Closed\<close>.\<close>
  "submitTurn sid inboundContent outcome sv =
     (case stage_of sv sid of
        None \<Rightarrow> (Inl SessionNotFound, sv)
      | Some stg \<Rightarrow>
          if stg = Closed then (Inl SessionClosed, sv)
          else
            (let sv1 = append_turn sid CandidateTurn inboundContent sv
             in case outcome of
                  AgentFailed \<Rightarrow> (Inl AgentFailure, sv1)
                | AgentReply text done \<Rightarrow>
                    (let sv2 = append_turn sid AgentTurn text sv1;
                         stg' = advance stg done;
                         sv3 = set_stage sid stg' sv2;
                         sv4 = (if stg' \<noteq> stg \<and> (stg' = HRHandoff \<or> stg' = Closed)
                                then finalize sid False sv3 else sv3)
                     in (Inr \<lparr>result_reply = text, result_stage = stg',
                              result_stage_changed = (stg' \<noteq> stg)\<rparr>, sv4))))"

definition endSession :: "string \<Rightarrow> server \<Rightarrow> (error + unit) \<times> server" where
  \<comment> \<open>Modelled from the spec: \<open>endSession(sessionId)\<close> of section 6. Ending a session that is
      already \<open>Closed\<close> is a no-op, not an error; otherwise the session is force-ended.\<close>
  "endSession sid sv =
     (case stage_of sv sid of
        None \<Rightarrow> (Inl SessionNotFound, sv)
      | Some stg \<Rightarrow> if stg = Closed then (Inr (), sv) else (Inr (), forced_end sid sv))"

definition sweep :: "string list \<Rightarrow> server \<Rightarrow> server" where
  \<comment> \<open>Modelled from the spec: the registry's \<open>sweep\<close> (section 4.4), which force-ends the
      sessions idle beyond the timeout; \<open>idle\<close> lists them.\<close>
  "sweep idle sv = fold end_if_active idle sv"

definition find_report :: "server \<Rightarrow> string \<Rightarrow> report option" where
  \<comment> \<open>Modelled from the spec: the lookup of a report by its identifier. The spec gives a
      report no identity apart from the session it is made for (a new report requires a
      new session, section 3), so the identifier of a report is that of its session.\<close>
  "find_report sv reportId = find (\<lambda>r. report_session r = reportId) (reports sv)"

definition recorded_decision :: "server \<Rightarrow> string \<Rightarrow> decision option" where
  \<comment> \<open>Modelled from the spec: the HR decision of a report, absent until one is recorded
      (and for an identifier that names no report).\<close>
  "recorded_decision sv reportId =
     (case find_report sv reportId of None \<Rightarrow> None | Some r \<Rightarrow> report_decision r)"

fun record_on :: "string \<Rightarrow> decision \<Rightarrow> string \<Rightarrow> report list \<Rightarrow> report list" where
  \<comment> \<open>Modelled from the spec: the write of the HR decision operation, on the report the
      lookup finds.\<close>
  "record_on reportId d notes [] = []"
| "record_on reportId d notes (r # rs) =
     (if report_session r = reportId
      then r\<lparr>report_decision := Some d, report_notes := notes, report_reviewed := True\<rparr> # rs
      else r # record_on reportId d notes rs)"

definition recordDecision ::
  "string \<Rightarrow> decision \<Rightarrow> string \<Rightarrow> server \<Rightarrow> (error + unit) \<times> server" where
  \<comment> \<open>Modelled from the spec: \<open>recordDecision(reportId, decision, notes)\<close> of section 6,
      which fails with \<open>ReportNotFound\<close> or \<open>DecisionAlreadyRecorded\<close>; once a decision is
      recorded it is final for that report (section 3).\<close>
  "recordDecision reportId d notes sv =
     (case find_report sv reportId of
        None \<Rightarrow> (Inl ReportNotFound, sv)
      | Some r \<Rightarrow>
          if report_decision r \<noteq> None then (Inl DecisionAlreadyRecorded, sv)
          else (Inr (), sv\<lparr>reports := record_on reportId d notes (reports sv)\<rparr>))"

definition lists_report :: "entry \<Rightarrow> report \<Rightarrow> bool" where
  \<comment> \<open>Modelled from the spec: what \<open>listCandidatesWithLatestReport\<close> (section 6) hands to
      the dashboard for a report. The entry's \<open>latest_report\<close> carries the identifier of
      the report and its HR decision, one of \<open>approve\<close>, \<open>reject\<close>, \<open>hold\<close> or none
      (section 3).\<close>
  "lists_report item r =
     (case latest_report item of
        None \<Rightarrow> False
      | Some rep \<Rightarrow> report_id rep = report_session r \<and>
                   hr_decision rep = map_option decision_string (report_decision r))"

text \<open>
  Modelled from the spec: the calls the orchestrator receives (sections 4 and 6). A run
  handles them in order. The identifier of a new session is fresh: a \<open>StartSession\<close>
  with an identifier already in use is not a call that can happen, and the run ignores
  it.
\<close>

datatype call =
    StartSession string modality string
  | SubmitTurn string string agent_outcome
  | EndSession string
  | Sweep "string list"
  | RecordDecision string decision string

fun handle :: "call \<Rightarrow> server \<Rightarrow> server" where
  \<comment> \<open>Modelled from the spec: the state a call leaves, whatever it answers.\<close>
  "handle (StartSession candidateId m sid) sv =
     (if stage_of sv sid = None then startSession candidateId m sid sv else sv)"
| "handle (SubmitTurn sid content outcome) sv = snd (submitTurn sid content outcome sv)"
| "handle (EndSession sid) sv = snd (endSession sid sv)"
| "handle (Sweep idle) sv = sweep idle sv"
| "handle (RecordDecision reportId d notes) sv = snd (recordDecision reportId d notes sv)"

fun states :: "call list \<Rightarrow> server \<Rightarrow> server list" where
  \<comment> \<open>Modelled from the spec: the states a run goes through, the starting state first.\<close>
  "states [] sv = [sv]"
| "states (c # cs) sv = sv # states cs (handle c sv)"

definition run :: "call list \<Rightarrow> server \<Rightarrow> server" where
  \<comment> \<open>Modelled from the spec: the state at the end of a run.\<close>
  "run cs sv = last (states cs sv)"

definition observed_stages :: "string \<Rightarrow> call list \<Rightarrow> server \<Rightarrow> stage list" where
  \<comment> \<open>Modelled from the spec: the stage values observed over time for one session
      (section 8), one for every state of the run in which the session exists.\<close>
  "observed_stages sid cs sv = List.map_filter (\<lambda>s. stage_of s sid) (states cs sv)"

subsection \<open>The requests of the pages\<close>

definition handleDecision :: "string \<Rightarrow> decision \<Rightarrow> call" where
  \<comment> \<open>\<open>handleDecision\<close> (src/frontend/src/app/hr/page.tsx, lines 74-89) posts
      \<open>{decision, notes: ''}\<close> to \<open>/api/hr/decision/reportId\<close>, the endpoint that submits an HR
      decision: the call \<open>recordDecision(reportId, decision, '')\<close>.\<close>
  "handleDecision reportId d = RecordDecision reportId d []"


fun end_requests :: "effect list \<Rightarrow> string list" where
  \<comment> \<open>Modelled from the spec: the client effects that ask for the end of a session, the
      HTTP request on the session's \<open>end\<close> endpoint and the \<open>end\<close> frame, which triggers
      \<open>endSession\<close> (section 6).\<close>
  "end_requests [] = []"
| "end_requests (PostSessionEnd sid # es) = sid # end_requests es"
| "end_requests (WsSend c sid d # es) =
     (if f_type d = Some ''end'' then sid # end_requests es else end_requests es)"
| "end_requests (e # es) = end_requests es"

definition serve_end_requests :: "string list \<Rightarrow> server \<Rightarrow> (error + unit) list \<times> server" where
  \<comment> \<open>Modelled from the spec: the answers of \<open>endSession\<close> to a list of end requests, in
      order, and the state they leave.\<close>
  "serve_end_requests sids sv =
     fold (\<lambda>sid (answers, sv). (answers @ [fst (endSession sid sv)], snd (endSession sid sv)))
       sids ([], sv)"

definition chat_completion_flow :: "string \<Rightarrow> frame \<Rightarrow> bool \<Rightarrow> effect list" where
  \<comment> \<open>The effects of the chat page over a session that completes: the session starts, the
      socket opens, the frame \<open>d\<close> arrives, the socket closes or stays open, and the user
      presses End.\<close>
  "chat_completion_flow sid d closed_first =
     snd (chat_run ([ChatSessionStarted sid None, ChatOpen, ChatMessage d] @
                    (if closed_first then [ChatClose] else []) @ [ChatEnd]) chat_initial)"

subsection \<open>Relations between states of the orchestrator\<close>

definition advances :: "string \<Rightarrow> server \<Rightarrow> server \<Rightarrow> bool" where
  \<comment> \<open>Modelled from the spec: invariant (a) of section 3 between two states. A session
      that exists still exists and its stage has not moved back in the fixed order.\<close>
  "advances sid sv sv' =
     (case stage_of sv sid of
        None \<Rightarrow> True
      | Some a \<Rightarrow> (case stage_of sv' sid of None \<Rightarrow> False | Some b \<Rightarrow> stage_rank a \<le> stage_rank b))"

definition expected_reports :: "server \<Rightarrow> string \<Rightarrow> nat" where
  \<comment> \<open>Modelled from the spec: invariant (d) of section 3. A report exists if and only if
      the session has reached \<open>HRHandoff\<close> or later; and it is the only one.\<close>
  "expected_reports sv sid =
     (case stage_of sv sid of
        None \<Rightarrow> 0
      | Some stg \<Rightarrow> if stage_rank HRHandoff \<le> stage_rank stg then 1 else 0)"

definition report_count_ok :: "server \<Rightarrow> bool" where
  \<comment> \<open>Modelled from the spec: invariant (d) for every session identifier.\<close>
  "report_count_ok sv = (\<forall>sid. length (reports_of sv sid) = expected_reports sv sid)"

section \<open>Properties of the HR dashboard\<close>

lemma latest_decision_eq: "latest_decision c = Some d \<longleftrightarrow> has_decision d c"
  by (simp add: latest_decision_def has_decision_def split: option.splits)

text \<open>
  C9. For every list of candidates and every filter, \<open>filteredCandidates\<close> is the
  reference filter (everything for all, the entries in HR review for pending, the
  entries whose latest report is approved or rejected for the other two), and the
  result is a subsequence of the input: order is kept and nothing is added.
\<close>

theorem filteredCandidates_reference:
  "filteredCandidates f cs = reference_filter f cs \<and> subseq (filteredCandidates f cs) cs"
proof
  have cb: "filter_callback f = (\<lambda>c. case f of
       FilterAll \<Rightarrow> True
     | FilterPending \<Rightarrow> status (candidate c) = ''hr_review''
     | FilterApproved \<Rightarrow> has_decision ''approve'' c
     | FilterRejected \<Rightarrow> has_decision ''reject'' c)"
    by (cases f) (simp_all add: fun_eq_iff filter_callback_def latest_decision_eq)
  show "filteredCandidates f cs = reference_filter f cs"
    unfolding filteredCandidates_def cb by (cases f) simp_all
  show "subseq (filteredCandidates f cs) cs"
    by (simp add: filteredCandidates_def)
qed

subsection \<open>Statistics cards\<close>

lemma stat_value_Some: "stat_value (Some obj) k = (case map_of obj k of None \<Rightarrow> 0 | Some n \<Rightarrow> n)"
  by (simp add: stat_value_def split: option.splits)

text \<open>
  C2, as the page has it. The statistics object the dashboard consumes has the five
  fields of \<open>DashboardStats\<close>, named \<open>total_candidates\<close>, \<open>pending_review\<close>,
  \<open>approved\<close>, \<open>rejected\<close> and \<open>in_progress\<close>: each of the five cards shows one of
  them, and fields named \<open>total\<close> and \<open>pending\<close> are not read at all.
\<close>

theorem stat_cards_shape:
  "stat_cards (Some (stats_object d)) =
     [(''Total Candidates'', total_candidates d), (''Pending Review'', pending_review d),
      (''In Progress'', in_progress d), (''Approved'', approved d), (''Rejected'', rejected d)]
   \<and> stat_cards (Some ((''total'', t) # (''pending'', p) # stats_object d)) =
       stat_cards (Some (stats_object d))"
  by (simp add: stat_cards_def stat_value_Some stats_object_def)

text \<open>
  An object of the shape \<open>{total, pending, approved, rejected, in_progress}\<close> is not what
  the page consumes: for 5 candidates of whom 2 are pending, the first two cards show 0.
\<close>

theorem stat_cards_spec_shape_counterexample:
  "stat_cards (Some [(''total'', 5), (''pending'', 2), (''approved'', 1), (''rejected'', 1),
                     (''in_progress'', 1)]) =
     [(''Total Candidates'', 0), (''Pending Review'', 0), (''In Progress'', 1),
      (''Approved'', 1), (''Rejected'', 1)]"
  by (simp add: stat_cards_def stat_value_Some)

subsection \<open>Decision buttons\<close>

lemma decision_click_guarded:
  "decision_guard item \<Longrightarrow>
   \<exists>r. latest_report item = Some r \<and> \<not> truthy (hr_decision r) \<and>
       decision_click item d = Inr (HandleDecision (report_id r) d)"
  by (auto simp: decision_guard_def decision_click_def latest_report_id_def split: option.splits)

lemma table_actions_cases:
  "(t, c) \<in> set (table_actions item) \<Longrightarrow>
   c = Inr (SetSelectedCandidate (Some item)) \<or>
   (decision_guard item \<and> (\<exists>d. c = decision_click item d))"
  by (auto simp: table_actions_def split: if_splits)

lemma modal_actions_cases:
  "(t, c) \<in> set (modal_actions sel) \<Longrightarrow>
   c = Inr (SetSelectedCandidate None) \<or>
   (\<exists>item. sel = Some item \<and> decision_guard item \<and> (\<exists>d. c = decision_click item d))"
  by (auto simp: modal_actions_def split: option.splits if_splits)

text \<open>
  C8. No click handler of a rendered button throws: in the table row and in the detail
  modal, every handler that calls \<open>handleDecision\<close> was rendered under the guard, so
  \<open>latest_report\<close> is present and the call receives the identifier of that report.
\<close>

theorem handleDecision_report_present:
  assumes "(t, c) \<in> set (table_actions item) \<union> set (modal_actions (Some item))"
  shows "(\<exists>a. c = Inr a) \<and>
         (\<forall>rid d. c = Inr (HandleDecision rid d) \<longrightarrow>
            (\<exists>r. latest_report item = Some r \<and> rid = report_id r))"
proof -
  from assms have "c = Inr (SetSelectedCandidate (Some item)) \<or> c = Inr (SetSelectedCandidate None) \<or>
      (decision_guard item \<and> (\<exists>d. c = decision_click item d))"
    using table_actions_cases [of t c item] modal_actions_cases [of t c "Some item"] by auto
  then consider "\<exists>e. c = Inr (SetSelectedCandidate e)"
    | d where "decision_guard item" "c = decision_click item d"
    by blast
  then show ?thesis
  proof cases
    case 1
    then show ?thesis by auto
  next
    case 2
    from decision_click_guarded [OF 2(1), of d] 2(2) show ?thesis by auto
  qed
qed

theorem handleDecision_report_present_witness:
  "(''Approve'',
    Inr (HandleDecision ''r1'' Approve))
     \<in> set (table_actions
        \<lparr>candidate = \<lparr>cand_id = ''c1'', cand_name = ''Ada'', cand_email = ''ada@example.org'',
                      job_role = ''Software Engineer'', status = ''hr_review'', created_at = ''''\<rparr>,
         latest_report = Some \<lparr>report_id = ''r1'', overall_score = 80, technical_score = 75,
                      behavioral_score = 85, recommendation = ''hire'', hr_reviewed = False,
                      hr_decision = None\<rparr>,
         sessions_count = 1\<rparr>)
   \<and> (\<exists>a. (Inr (HandleDecision ''r1'' Approve) :: js_error + click) = Inr a)"
proof -
  let ?item = "\<lparr>candidate = \<lparr>cand_id = ''c1'', cand_name = ''Ada'', cand_email = ''ada@example.org'',
                      job_role = ''Software Engineer'', status = ''hr_review'', created_at = ''''\<rparr>,
         latest_report = Some \<lparr>report_id = ''r1'', overall_score = 80, technical_score = 75,
                      behavioral_score = 85, recommendation = ''hire'', hr_reviewed = False,
                      hr_decision = None\<rparr>,
         sessions_count = 1\<rparr>"
  have m: "(''Approve'', Inr (HandleDecision ''r1'' Approve)) \<in> set (table_actions ?item)"
    by (simp add: table_actions_def decision_guard_def truthy_def decision_click_def
        latest_report_id_def)
  then have "(''Approve'', Inr (HandleDecision ''r1'' Approve))
      \<in> set (table_actions ?item) \<union> set (modal_actions (Some ?item))"
    by blast
  from handleDecision_report_present [OF this] m show ?thesis by blast
qed

section \<open>Properties of the chat page and of the voice page\<close>

subsection \<open>Error frames\<close>

text \<open>
  C1. An \<open>error\<close> frame reaches a handler in both pages, but only the voice page has a
  branch for it: it logs the message and returns the avatar to idle. The chat page's
  if-else chain has no branch for \<open>error\<close>, so the frame changes nothing and logs
  nothing; after a \<open>typing\<close> frame the typing indicator stays on, and with it the input
  stays disabled.
\<close>

theorem chat_onmessage_ignores_error:
  "chat_onmessage sid (error_frame m) st = (st, [])
   \<and> voice_onmessage (error_frame m) vst =
       (vst\<lparr>avatarState := Some ''idle''\<rparr>, [ConsoleError (Some m)])
   \<and> chat_isTyping
       (fst (chat_run [ChatSessionStarted ''s1'' None, ChatOpen, ChatMessage typing_frame,
                       ChatMessage (error_frame ''please retry'')] chat_initial))
   \<and> snd (chat_run [ChatSessionStarted ''s1'' None, ChatOpen, ChatMessage typing_frame,
                     ChatMessage (error_frame ''please retry'')] chat_initial) =
       [ConsoleLog (Some ''WebSocket connected'')]"
  by (simp add: chat_onmessage_def voice_onmessage_def error_frame_def empty_frame_def
      typing_frame_def chat_initial_def)

subsection \<open>Message kinds\<close>

lemma chat_onmessage_kinds:
  "chat_onmessage sid d st \<noteq> (st, []) \<Longrightarrow> f_type d \<in> {Some ''typing'', Some ''response'', Some ''ready''}"
  by (auto simp: chat_onmessage_def split: if_splits)

lemma voice_onmessage_kinds:
  "voice_onmessage d st \<noteq> (st, []) \<Longrightarrow>
   f_type d \<in> {Some ''ready'', Some ''status'', Some ''transcription'', Some ''response'', Some ''error''}"
  by (auto simp: voice_onmessage_def split: if_splits)

lemma ws_send_frames: "ws_send ws d = Inr fx \<Longrightarrow> sent_frames fx = [] \<or> sent_frames fx = [d]"
  by (auto simp: ws_send_def split: ready_state.splits)

lemma ws_close_frames: "ws_close ws = (ws', fx) \<Longrightarrow> sent_frames fx = []"
  by (auto simp: ws_close_def split: if_splits)

lemma sent_frames_append: "sent_frames (xs @ ys) = sent_frames xs @ sent_frames ys"
  by (induction xs rule: sent_frames.induct) simp_all

lemma post_session_end_frames: "sent_frames (post_session_end s) = []"
  by (simp add: post_session_end_def split: option.splits)

lemma chat_onmessage_frames: "chat_onmessage sid d st = (st', fx) \<Longrightarrow> sent_frames fx = []"
  by (auto simp: chat_onmessage_def Let_def split: if_splits)

lemma voice_onmessage_frames: "voice_onmessage d st = (st', fx) \<Longrightarrow> sent_frames fx = []"
  by (auto simp: voice_onmessage_def play_or_speak_def split: option.splits if_splits)

lemma chat_sendMessage_frames:
  "d \<in> set (sent_frames (fst (snd (chat_sendMessage st)))) \<Longrightarrow>
   d = message_frame (chat_inputValue st) \<and> trim (chat_inputValue st) \<noteq> []"
  by (auto simp: chat_sendMessage_def truthy_def Let_def
      split: if_splits option.splits sum.splits dest: ws_send_frames)

lemma chat_endSession_frames:
  "d \<in> set (sent_frames (fst (snd (chat_endSession st)))) \<Longrightarrow> d = end_frame"
  by (auto simp: chat_endSession_def sent_frames_append post_session_end_frames
      split: option.splits sum.splits prod.splits dest: ws_send_frames ws_close_frames)

lemma voice_endSession_frames:
  "d \<in> set (sent_frames (fst (snd (voice_endSession st)))) \<Longrightarrow> d = end_frame"
  by (auto simp: voice_endSession_def sent_frames_append
      split: option.splits sum.splits prod.splits dest: ws_send_frames ws_close_frames)

lemma recorder_onstop_frames:
  "d \<in> set (sent_frames (fst (snd (recorder_onstop b st)))) \<Longrightarrow> d = audio_frame b"
  by (auto simp: recorder_onstop_def split: option.splits if_splits)

lemma chat_step_frames:
  "d \<in> set (sent_frames (fst (snd (chat_step ev st)))) \<Longrightarrow>
   (ev = ChatSend \<and> d = message_frame (chat_inputValue st) \<and> trim (chat_inputValue st) \<noteq> []) \<or>
   (ev = ChatEnd \<and> d = end_frame)"
proof (cases ev)
  case (ChatMessage x)
  assume "d \<in> set (sent_frames (fst (snd (chat_step ev st))))"
  with ChatMessage show ?thesis
    by (auto split: option.splits prod.splits dest: chat_onmessage_frames)
next
  case ChatSend
  assume "d \<in> set (sent_frames (fst (snd (chat_step ev st))))"
  with ChatSend show ?thesis
    by (auto split: if_splits dest: chat_sendMessage_frames)
next
  case ChatEnd
  assume "d \<in> set (sent_frames (fst (snd (chat_step ev st))))"
  with ChatEnd show ?thesis
    by (auto dest: chat_endSession_frames)
qed (auto split: if_splits)

lemma voice_step_frames:
  "d \<in> set (sent_frames (fst (snd (voice_step ev st)))) \<Longrightarrow>
   (\<exists>b. ev = VoiceRecorderStopped b \<and> d = audio_frame b) \<or> (ev = VoiceClickEnd \<and> d = end_frame)"
proof (cases ev)
  case (VoiceMessage x)
  assume "d \<in> set (sent_frames (fst (snd (voice_step ev st))))"
  with VoiceMessage show ?thesis
    by (auto split: option.splits prod.splits dest: voice_onmessage_frames)
next
  case VoiceClickMic
  assume "d \<in> set (sent_frames (fst (snd (voice_step ev st))))"
  with VoiceClickMic show ?thesis
    by (auto simp: stopRecording_def startRecording_call_def split: if_splits option.splits)
next
  case (VoiceRecorderStopped b)
  assume "d \<in> set (sent_frames (fst (snd (voice_step ev st))))"
  with VoiceRecorderStopped show ?thesis
    by (auto dest: recorder_onstop_frames)
next
  case VoiceClickEnd
  assume "d \<in> set (sent_frames (fst (snd (voice_step ev st))))"
  with VoiceClickEnd show ?thesis
    by (auto dest: voice_endSession_frames)
qed (auto simp: startRecording_resume_def startRecording_rejected_def split: if_splits)

text \<open>
  C3, with the two kinds the pages add. Every message kind exchanged is one of \<open>ready\<close>,
  \<open>message\<close>, \<open>transcription\<close>, \<open>response\<close>, \<open>status\<close>, \<open>error\<close>, \<open>end\<close>, \<open>typing\<close>
  or \<open>audio\<close>: the \<open>onmessage\<close> dispatch of the chat page, and that of the voice page,
  reacts only to frames whose kind is in this set, and whatever the event and the state,
  every frame the chat page or the voice page sends has its type in this set.
\<close>

theorem client_message_kinds:
  "(chat_onmessage sid d st \<noteq> (st, []) \<longrightarrow> has_kind client_kinds d) \<and>
   (voice_onmessage d vst \<noteq> (vst, []) \<longrightarrow> has_kind client_kinds d) \<and>
   (d \<in> set (sent_frames (fst (snd (chat_step ev st)))) \<longrightarrow> has_kind client_kinds d) \<and>
   (d \<in> set (sent_frames (fst (snd (voice_step vev vst)))) \<longrightarrow> has_kind client_kinds d)"
proof (intro conjI impI)
  assume "chat_onmessage sid d st \<noteq> (st, [])"
  from chat_onmessage_kinds [OF this]
  show "has_kind client_kinds d"
    by (auto simp: has_kind_def client_kinds_def protocol_kinds_def)
next
  assume "voice_onmessage d vst \<noteq> (vst, [])"
  from voice_onmessage_kinds [OF this]
  show "has_kind client_kinds d"
    by (auto simp: has_kind_def client_kinds_def protocol_kinds_def)
next
  assume "d \<in> set (sent_frames (fst (snd (chat_step ev st))))"
  from chat_step_frames [OF this]
  show "has_kind client_kinds d"
    by (auto simp: has_kind_def client_kinds_def protocol_kinds_def message_frame_def
        end_frame_def)
next
  assume "d \<in> set (sent_frames (fst (snd (voice_step vev vst))))"
  from voice_step_frames [OF this]
  show "has_kind client_kinds d"
    by (auto simp: has_kind_def client_kinds_def protocol_kinds_def audio_frame_def
        end_frame_def)
qed

theorem client_message_kinds_witness:
  "chat_onmessage ''s1'' typing_frame chat_initial \<noteq> (chat_initial, [])
   \<and> has_kind client_kinds typing_frame
   \<and> audio_frame ''UklGRg=='' \<in> set (sent_frames (fst (snd (voice_step
        (VoiceRecorderStopped ''UklGRg=='')
        (fst (voice_run [VoiceSessionStarted ''s1'', VoiceOpen, VoiceClickMic,
                         VoiceUserMediaGranted, VoiceClickMic] voice_initial))))))
   \<and> has_kind client_kinds (audio_frame ''UklGRg=='')"
proof -
  let ?vst = "fst (voice_run [VoiceSessionStarted ''s1'', VoiceOpen, VoiceClickMic,
                              VoiceUserMediaGranted, VoiceClickMic] voice_initial)"
  have r: "chat_onmessage ''s1'' typing_frame chat_initial \<noteq> (chat_initial, [])"
    by (simp add: chat_onmessage_def typing_frame_def empty_frame_def chat_initial_def)
  have s: "audio_frame ''UklGRg=='' \<in> set (sent_frames (fst (snd (voice_step
        (VoiceRecorderStopped ''UklGRg=='') ?vst))))"
    by (simp add: voice_initial_def recorder_onstop_def mic_disabled_def
        startRecording_call_def startRecording_resume_def stopRecording_def)
  from client_message_kinds [of "''s1''" typing_frame chat_initial] r
  have "has_kind client_kinds typing_frame" by blast
  moreover from client_message_kinds
    [where d = "audio_frame ''UklGRg==''" and vev = "VoiceRecorderStopped ''UklGRg==''"
       and vst = ?vst] s
  have "has_kind client_kinds (audio_frame ''UklGRg=='')" by blast
  ultimately show ?thesis using r s by blast
qed

text \<open>
  The claim as written fails in both directions: the chat page reacts to a \<open>typing\<close>
  frame (the typing indicator comes on), and the voice page, when the user has recorded
  an utterance and stopped the recorder, sends an \<open>audio\<close> frame; neither kind is among
  the seven listed.
\<close>

theorem protocol_kinds_counterexample:
  "\<not> has_kind protocol_kinds typing_frame
   \<and> chat_onmessage ''s1'' typing_frame chat_initial =
       (chat_initial\<lparr>chat_isTyping := True, chat_currentAgent := ''assistant''\<rparr>, [])
   \<and> chat_isTyping chat_initial = False
   \<and> \<not> has_kind protocol_kinds (audio_frame ''UklGRg=='')
   \<and> sent_frames (snd (voice_run
        [VoiceSessionStarted ''s1'', VoiceOpen, VoiceClickMic, VoiceUserMediaGranted,
         VoiceClickMic, VoiceRecorderStopped ''UklGRg==''] voice_initial)) =
       [audio_frame ''UklGRg=='']"
  by (simp add: has_kind_def protocol_kinds_def typing_frame_def empty_frame_def audio_frame_def
      chat_onmessage_def chat_initial_def or_else_def voice_initial_def recorder_onstop_def
      mic_disabled_def startRecording_call_def startRecording_resume_def stopRecording_def)

subsection \<open>What the chat page submits\<close>

text \<open>
  C6. Whatever the input and the state of the connection, \<open>sendMessage\<close> puts at most
  the frame \<open>{type: message, content: inputValue}\<close> on the socket, and only when the
  input is non-empty after trimming; when the trimmed input is empty it sends nothing
  and changes nothing. No other handler of the chat page sends a \<open>message\<close> frame.
\<close>

theorem sendMessage_nonempty:
  "(d \<in> set (sent_frames (fst (snd (chat_sendMessage st)))) \<longrightarrow>
      d = message_frame (chat_inputValue st) \<and> trim (chat_inputValue st) \<noteq> []) \<and>
   (trim (chat_inputValue st) = [] \<longrightarrow> chat_sendMessage st = (st, [], None)) \<and>
   (d \<in> set (sent_frames (fst (snd (chat_step ev st)))) \<and> f_type d = Some ''message'' \<longrightarrow>
      ev = ChatSend \<and> f_content d = Some (chat_inputValue st) \<and> trim (chat_inputValue st) \<noteq> [])"
proof (intro conjI impI)
  assume "d \<in> set (sent_frames (fst (snd (chat_sendMessage st))))"
  from chat_sendMessage_frames [OF this]
  show "d = message_frame (chat_inputValue st)" and "trim (chat_inputValue st) \<noteq> []"
    by simp_all
next
  assume "trim (chat_inputValue st) = []"
  then show "chat_sendMessage st = (st, [], None)"
    by (simp add: chat_sendMessage_def truthy_def)
next
  assume a: "d \<in> set (sent_frames (fst (snd (chat_step ev st)))) \<and> f_type d = Some ''message''"
  from chat_step_frames [of d ev st] a
  have "ev = ChatSend \<and> d = message_frame (chat_inputValue st) \<and> trim (chat_inputValue st) \<noteq> []"
    by (auto simp: end_frame_def empty_frame_def)
  then show "ev = ChatSend" and "f_content d = Some (chat_inputValue st)"
    and "trim (chat_inputValue st) \<noteq> []"
    by (simp_all add: message_frame_def empty_frame_def)
qed

lemma trim_examples: "trim ''  hi '' = ''hi''" "trim ''   '' = []"
  by (simp_all add: trim_def isWhiteSpace_def)

theorem sendMessage_nonempty_witness:
  "message_frame ''  hi '' \<in> set (sent_frames (fst (snd (chat_sendMessage
       (fst (chat_run [ChatSessionStarted ''s1'' None, ChatOpen, ChatInput ''  hi ''] chat_initial))))))
   \<and> trim ''  hi '' \<noteq> []
   \<and> trim ''   '' = []
   \<and> chat_sendMessage
       (fst (chat_run [ChatSessionStarted ''s1'' None, ChatOpen, ChatInput ''   ''] chat_initial)) =
      (fst (chat_run [ChatSessionStarted ''s1'' None, ChatOpen, ChatInput ''   ''] chat_initial), [], None)"
proof -
  let ?hi = "fst (chat_run [ChatSessionStarted ''s1'' None, ChatOpen, ChatInput ''  hi ''] chat_initial)"
  let ?blank = "fst (chat_run [ChatSessionStarted ''s1'' None, ChatOpen, ChatInput ''   ''] chat_initial)"
  have hi: "chat_inputValue ?hi = ''  hi ''" and blank: "chat_inputValue ?blank = ''   ''"
    by (simp_all add: chat_initial_def chat_input_disabled_def)
  have sent: "message_frame ''  hi '' \<in> set (sent_frames (fst (snd (chat_sendMessage ?hi))))"
    by (simp add: chat_sendMessage_def chat_initial_def chat_input_disabled_def truthy_def
        trim_examples ws_send_def)
  from sendMessage_nonempty [of "message_frame ''  hi ''" ?hi] sent hi
  have "trim ''  hi '' \<noteq> []" by simp
  moreover from sendMessage_nonempty [of _ ?blank] blank trim_examples(2)
  have "chat_sendMessage ?blank = (?blank, [], None)" by simp
  ultimately show ?thesis using sent trim_examples(2) by blast
qed

subsection \<open>The microphone button\<close>

lemma mic_enabled_iff:
  "\<not> mic_disabled st \<longleftrightarrow>
   voice_isConnected st \<and> avatarState st \<noteq> Some ''speaking'' \<and>
   avatarState st \<noteq> Some ''thinking'' \<and> \<not> voice_isComplete st"
  by (simp add: mic_disabled_def)

lemma click_on_disabled_mic: "mic_disabled st \<Longrightarrow> voice_step VoiceClickMic st = (st, [], None)"
  by simp

text \<open>
  C10. The button is enabled only while the page is connected, the avatar is neither
  speaking nor thinking and the interview is not complete, and a click on the disabled
  button does nothing. But \<open>startRecording\<close> starts its recorder only after
  \<open>await getUserMedia\<close>, and nothing is checked again when it resumes. Two clicks before
  the microphone is granted start two recorders, of which the page can stop only the
  second; and a click made while the avatar is idle starts its recorder after the
  greeting has put the avatar into \<open>speaking\<close>.
\<close>

theorem startRecording_after_await:
  "capturing (fst (voice_run
      [VoiceSessionStarted ''s1'', VoiceOpen, VoiceClickMic, VoiceClickMic,
       VoiceUserMediaGranted, VoiceUserMediaGranted] voice_initial)) = 2
   \<and> capturing (fst (voice_run
      [VoiceSessionStarted ''s1'', VoiceOpen, VoiceClickMic, VoiceClickMic,
       VoiceUserMediaGranted, VoiceUserMediaGranted, VoiceClickMic] voice_initial)) = 1
   \<and> avatarState (fst (voice_run
      [VoiceSessionStarted ''s1'', VoiceOpen, VoiceClickMic,
       VoiceMessage (empty_frame\<lparr>f_type := Some ''ready'', f_message := Some ''Welcome''\<rparr>)]
      voice_initial)) = Some ''speaking''
   \<and> capturing (fst (voice_run
      [VoiceSessionStarted ''s1'', VoiceOpen, VoiceClickMic,
       VoiceMessage (empty_frame\<lparr>f_type := Some ''ready'', f_message := Some ''Welcome''\<rparr>)]
      voice_initial)) = 0
   \<and> capturing (fst (voice_run
      [VoiceSessionStarted ''s1'', VoiceOpen, VoiceClickMic,
       VoiceMessage (empty_frame\<lparr>f_type := Some ''ready'', f_message := Some ''Welcome''\<rparr>),
       VoiceUserMediaGranted] voice_initial)) = 1"
  by (simp add: capturing_def voice_initial_def mic_disabled_def startRecording_call_def
      startRecording_resume_def stopRecording_def voice_onmessage_def empty_frame_def
      play_or_speak_def)

section \<open>Properties of the orchestrator model\<close>

subsection \<open>Lookups after updates\<close>

lemma find_map_same_id:
  assumes "\<And>s. session_id (g s) = session_id s"
  shows "find (\<lambda>s. session_id s = k) (map g ss) = map_option g (find (\<lambda>s. session_id s = k) ss)"
  using assms by (induction ss) simp_all

lemma find_holds: "find P xs = Some x \<Longrightarrow> P x"
  by (induction xs) (auto split: if_splits)

lemma find_app: "find P (xs @ ys) = (case find P xs of Some x \<Rightarrow> Some x | None \<Rightarrow> find P ys)"
  by (induction xs) simp_all

lemma stage_of_set_stage:
  "stage_of (set_stage k stg sv) sid =
     (if sid = k then map_option (\<lambda>_. stg) (stage_of sv sid) else stage_of sv sid)"
proof -
  let ?g = "\<lambda>s. if session_id s = k then s\<lparr>session_stage := stg\<rparr> else s"
  have "find (\<lambda>s. session_id s = sid) (map ?g (sessions sv)) =
        map_option ?g (find (\<lambda>s. session_id s = sid) (sessions sv))"
    by (rule find_map_same_id) simp
  then show ?thesis
    by (cases "find (\<lambda>s. session_id s = sid) (sessions sv)")
       (auto simp: stage_of_def find_session_def set_stage_def dest: find_holds)
qed

lemma stage_of_append_turn: "stage_of (append_turn k r c sv) sid = stage_of sv sid"
proof -
  let ?g = "\<lambda>s. if session_id s = k
                 then s\<lparr>session_turns := session_turns s @
                        [\<lparr>turn_role = r, turn_stage = session_stage s, turn_content = c,
                          turn_seq = length (session_turns s)\<rparr>]\<rparr>
                 else s"
  have "find (\<lambda>s. session_id s = sid) (map ?g (sessions sv)) =
        map_option ?g (find (\<lambda>s. session_id s = sid) (sessions sv))"
    by (rule find_map_same_id) simp
  then show ?thesis
    by (cases "find (\<lambda>s. session_id s = sid) (sessions sv)")
       (auto simp: stage_of_def find_session_def append_turn_def)
qed

lemma stage_of_finalize: "stage_of (finalize k p sv) sid = stage_of sv sid"
  by (simp add: finalize_def stage_of_def find_session_def)

lemma reports_of_set_stage: "reports_of (set_stage k stg sv) sid = reports_of sv sid"
  by (simp add: reports_of_def set_stage_def)

lemma reports_of_append_turn: "reports_of (append_turn k r c sv) sid = reports_of sv sid"
  by (simp add: reports_of_def append_turn_def)

lemma reports_of_finalize:
  "reports_of (finalize k p sv) sid =
     (if sid = k \<and> reports_of sv k = []
      then [\<lparr>report_session = k, report_partial = p, report_decision = None,
             report_notes = [], report_reviewed = False\<rparr>]
      else reports_of sv sid)"
  by (auto simp: finalize_def reports_of_def)

lemma stage_of_forced_end:
  "stage_of (forced_end k sv) sid =
     (if sid = k then map_option (\<lambda>_. Closed) (stage_of sv sid) else stage_of sv sid)"
  by (simp add: forced_end_def stage_of_finalize stage_of_set_stage)

lemma stage_of_end_if_active:
  "stage_of (end_if_active k sv) sid =
     (if sid = k then map_option (\<lambda>_. Closed) (stage_of sv sid) else stage_of sv sid)"
  by (auto simp: end_if_active_def stage_of_forced_end split: option.splits)

lemma stage_of_fold_end_if_active:
  "stage_of (fold end_if_active ks sv) sid =
     (if sid \<in> set ks then map_option (\<lambda>_. Closed) (stage_of sv sid) else stage_of sv sid)"
proof (induction ks arbitrary: sv)
  case Nil
  then show ?case by simp
next
  case (Cons k ks)
  show ?case
    by (cases "stage_of sv sid") (auto simp: Cons.IH stage_of_end_if_active)
qed

lemma stage_of_add_session:
  "stage_of (sv\<lparr>sessions := sessions sv @ [new]\<rparr>) k =
     (case stage_of sv k of
        Some a \<Rightarrow> Some a
      | None \<Rightarrow> if k = session_id new then Some (session_stage new) else None)"
  by (auto simp: stage_of_def find_session_def find_app split: option.splits)

lemma stage_of_startSession:
  assumes fresh: "stage_of sv sid = None"
  shows "stage_of (startSession c m sid sv) k =
     (if k = sid then Some ProfileAnalysis
      else if k \<in> set (sessions_of_candidate sv c)
           then map_option (\<lambda>_. Closed) (stage_of sv k)
           else stage_of sv k)"
proof -
  let ?sv = "fold end_if_active (sessions_of_candidate sv c) sv"
  have none: "stage_of ?sv sid = None"
    using fresh by (simp add: stage_of_fold_end_if_active)
  show ?thesis
  proof (cases "k = sid")
    case True
    with none show ?thesis
      by (simp add: startSession_def Let_def stage_of_add_session)
  next
    case False
    then show ?thesis
      by (simp add: startSession_def Let_def stage_of_add_session stage_of_fold_end_if_active
          split: option.splits)
  qed
qed

lemma stage_of_submitTurn:
  "stage_of (snd (submitTurn sid content outcome sv)) k =
     (if k = sid
      then (case stage_of sv sid of
              None \<Rightarrow> None
            | Some stg \<Rightarrow>
                if stg = Closed then Some Closed
                else (case outcome of AgentFailed \<Rightarrow> Some stg
                      | AgentReply text done \<Rightarrow> Some (advance stg done)))
      else stage_of sv k)"
  by (simp add: submitTurn_def Let_def stage_of_finalize stage_of_set_stage stage_of_append_turn
      split: option.splits agent_outcome.splits)

lemma stage_of_endSession:
  "stage_of (snd (endSession sid sv)) k =
     (if k = sid then map_option (\<lambda>_. Closed) (stage_of sv k) else stage_of sv k)"
  by (auto simp: endSession_def stage_of_forced_end split: option.splits)

lemma stage_of_recordDecision: "stage_of (snd (recordDecision rid d notes sv)) k = stage_of sv k"
  by (simp add: recordDecision_def stage_of_def find_session_def split: option.splits)

subsection \<open>Stages only advance\<close>

lemma stage_rank_Closed: "stage_rank stg \<le> 5"
  by (cases stg) simp_all

lemma stage_rank_advance: "stage_rank stg \<le> stage_rank (advance stg done)"
  by (cases stg) (simp_all add: advance_def)

lemma handle_advances: "advances sid sv (handle c sv)"
proof (cases c)
  case (StartSession cand m new)
  then show ?thesis
    by (cases "stage_of sv new")
       (auto simp: advances_def stage_of_startSession stage_rank_Closed split: option.splits)
next
  case (SubmitTurn k content outcome)
  then show ?thesis
    by (auto simp: advances_def stage_of_submitTurn stage_rank_advance
        split: option.splits agent_outcome.splits)
next
  case (EndSession k)
  then show ?thesis
    by (auto simp: advances_def stage_of_endSession stage_rank_Closed split: option.splits)
next
  case (Sweep idle)
  then show ?thesis
    by (auto simp: advances_def sweep_def stage_of_fold_end_if_active stage_rank_Closed
        split: option.splits)
next
  case (RecordDecision rid d nt)
  then show ?thesis
    by (auto simp: advances_def stage_of_recordDecision split: option.splits)
qed

lemma observed_stages_Cons:
  "observed_stages sid (c # cs) sv =
     (case stage_of sv sid of None \<Rightarrow> [] | Some a \<Rightarrow> [a]) @ observed_stages sid cs (handle c sv)"
  by (simp add: observed_stages_def split: option.splits)

lemma observed_stages_Nil:
  "observed_stages sid [] sv = (case stage_of sv sid of None \<Rightarrow> [] | Some a \<Rightarrow> [a])"
  by (simp add: observed_stages_def split: option.splits)

lemma observed_stages_lower_bound:
  "stage_of sv sid = Some a \<Longrightarrow> b \<in> set (observed_stages sid cs sv) \<Longrightarrow>
   stage_rank a \<le> stage_rank b"
proof (induction cs arbitrary: sv a)
  case Nil
  then show ?case by (simp add: observed_stages_Nil)
next
  case (Cons c cs)
  from handle_advances [of sid sv c] Cons.prems(1)
  obtain a' where a': "stage_of (handle c sv) sid = Some a'" "stage_rank a \<le> stage_rank a'"
    by (auto simp: advances_def split: option.splits)
  from Cons.prems have "b = a \<or> b \<in> set (observed_stages sid cs (handle c sv))"
    by (simp add: observed_stages_Cons)
  then show ?case
  proof
    assume "b = a"
    then show ?thesis by simp
  next
    assume "b \<in> set (observed_stages sid cs (handle c sv))"
    from Cons.IH [OF a'(1) this] a'(2) show ?thesis by simp
  qed
qed

lemma observed_stages_sorted: "sorted (map stage_rank (observed_stages sid cs sv))"
proof (induction cs arbitrary: sv)
  case Nil
  then show ?case by (simp add: observed_stages_Nil split: option.splits)
next
  case (Cons c cs)
  show ?case
  proof (cases "stage_of sv sid")
    case None
    then show ?thesis by (simp add: observed_stages_Cons Cons.IH)
  next
    case (Some a)
    from handle_advances [of sid sv c] Some
    obtain a' where a': "stage_of (handle c sv) sid = Some a'" "stage_rank a \<le> stage_rank a'"
      by (auto simp: advances_def split: option.splits)
    have "\<forall>b \<in> set (observed_stages sid cs (handle c sv)). stage_rank a \<le> stage_rank b"
      using observed_stages_lower_bound [OF a'(1)] a'(2) by fastforce
    with Some Cons.IH [of "handle c sv"] show ?thesis
      by (simp add: observed_stages_Cons)
  qed
qed

text \<open>
  C7. Along every run of the orchestrator, from any state, the stages observed for a
  session are non-decreasing in the fixed order \<open>ProfileAnalysis < TechnicalInterview <
  BehavioralInterview < Evaluation < HRHandoff < Closed\<close>, and no call moves a session
  back to an earlier stage or removes it.
\<close>

theorem stages_never_go_back:
  "sorted (map stage_rank (observed_stages sid cs sv))
   \<and> advances sid sv (handle c sv)
   \<and> map stage_rank [ProfileAnalysis, TechnicalInterview, BehavioralInterview, Evaluation,
                      HRHandoff, Closed] = [0, 1, 2, 3, 4, 5]"
  by (simp add: observed_stages_sorted handle_advances)

theorem stages_never_go_back_witness:
  "observed_stages ''s1''
     [StartSession ''ada'' ChatModality ''s1'',
      SubmitTurn ''s1'' ''Hello'' (AgentReply ''Welcome'' False),
      SubmitTurn ''s1'' ''Ready'' (AgentReply ''Let us start'' True),
      SubmitTurn ''s1'' ''An answer'' AgentFailed,
      StartSession ''ada'' VoiceModality ''s2'',
      SubmitTurn ''s1'' ''Again'' (AgentReply ''Too late'' True)] empty_server =
     [ProfileAnalysis, ProfileAnalysis, TechnicalInterview, TechnicalInterview, Closed, Closed]
   \<and> sorted (map stage_rank (observed_stages ''s1''
     [StartSession ''ada'' ChatModality ''s1'',
      SubmitTurn ''s1'' ''Hello'' (AgentReply ''Welcome'' False),
      SubmitTurn ''s1'' ''Ready'' (AgentReply ''Let us start'' True),
      SubmitTurn ''s1'' ''An answer'' AgentFailed,
      StartSession ''ada'' VoiceModality ''s2'',
      SubmitTurn ''s1'' ''Again'' (AgentReply ''Too late'' True)] empty_server))"
proof -
  have "observed_stages ''s1''
     [StartSession ''ada'' ChatModality ''s1'',
      SubmitTurn ''s1'' ''Hello'' (AgentReply ''Welcome'' False),
      SubmitTurn ''s1'' ''Ready'' (AgentReply ''Let us start'' True),
      SubmitTurn ''s1'' ''An answer'' AgentFailed,
      StartSession ''ada'' VoiceModality ''s2'',
      SubmitTurn ''s1'' ''Again'' (AgentReply ''Too late'' True)] empty_server =
     [ProfileAnalysis, ProfileAnalysis, TechnicalInterview, TechnicalInterview, Closed, Closed]"
    by code_simp
  with stages_never_go_back [of "''s1''" _ empty_server] show ?thesis
    by blast
qed

subsection \<open>One report for a session that has reached the hand-off\<close>

lemma expected_reports_le: "expected_reports sv sid \<le> 1"
  by (simp add: expected_reports_def split: option.splits)

lemma report_count_ok_forced_end:
  assumes ok: "report_count_ok sv" and ex: "stage_of sv k = Some stg"
  shows "report_count_ok (forced_end k sv)"
  unfolding report_count_ok_def
proof
  fix sid
  have old: "length (reports_of sv sid) = expected_reports sv sid"
    using ok by (simp add: report_count_ok_def)
  show "length (reports_of (forced_end k sv) sid) = expected_reports (forced_end k sv) sid"
  proof (cases "sid = k")
    case False
    with old show ?thesis
      by (simp add: forced_end_def reports_of_finalize reports_of_set_stage expected_reports_def
          stage_of_finalize stage_of_set_stage)
  next
    case True
    have new: "expected_reports (forced_end k sv) k = 1"
      using ex by (simp add: expected_reports_def stage_of_forced_end)
    have "length (reports_of sv k) \<le> 1"
      using old True expected_reports_le [of sv k] by simp
    then have "length (reports_of (forced_end k sv) k) = 1"
      by (cases "reports_of sv k")
         (simp_all add: forced_end_def reports_of_finalize reports_of_set_stage)
    with new True show ?thesis by simp
  qed
qed

lemma report_count_ok_end_if_active:
  "report_count_ok sv \<Longrightarrow> report_count_ok (end_if_active k sv)"
  by (auto simp: end_if_active_def split: option.splits intro: report_count_ok_forced_end)

lemma report_count_ok_fold:
  "report_count_ok sv \<Longrightarrow> report_count_ok (fold end_if_active ks sv)"
  by (induction ks arbitrary: sv) (simp_all add: report_count_ok_end_if_active)

lemma report_count_ok_startSession:
  assumes ok: "report_count_ok sv" and fresh: "stage_of sv sid = None"
  shows "report_count_ok (startSession c m sid sv)"
proof -
  let ?sv = "fold end_if_active (sessions_of_candidate sv c) sv"
  let ?new = "\<lparr>session_id = sid, session_candidate = c, session_modality = m,
              session_stage = ProfileAnalysis, session_turns = []\<rparr>"
  have ok': "report_count_ok ?sv" using ok by (rule report_count_ok_fold)
  have none: "stage_of ?sv sid = None"
    using fresh by (simp add: stage_of_fold_end_if_active)
  have "length (reports_of (?sv\<lparr>sessions := sessions ?sv @ [?new]\<rparr>) k) =
        expected_reports (?sv\<lparr>sessions := sessions ?sv @ [?new]\<rparr>) k" for k
  proof -
    have r: "reports_of (?sv\<lparr>sessions := sessions ?sv @ [?new]\<rparr>) k = reports_of ?sv k"
      by (simp add: reports_of_def)
    have o: "length (reports_of ?sv k) = expected_reports ?sv k"
      using ok' by (simp add: report_count_ok_def)
    show ?thesis
      unfolding r o using none
      by (auto simp: expected_reports_def stage_of_add_session split: option.splits)
  qed
  then show ?thesis
    by (simp add: report_count_ok_def startSession_def Let_def)
qed

lemma reports_of_submitTurn:
  "stage_of sv sid = Some stg \<Longrightarrow> stg \<noteq> Closed \<Longrightarrow>
   reports_of (snd (submitTurn sid content outcome sv)) k =
     (case outcome of
        AgentFailed \<Rightarrow> reports_of sv k
      | AgentReply text done \<Rightarrow>
          if advance stg done \<noteq> stg \<and> (advance stg done = HRHandoff \<or> advance stg done = Closed)
          then reports_of (finalize sid False sv) k
          else reports_of sv k)"
  by (auto simp: submitTurn_def Let_def reports_of_finalize reports_of_set_stage
      reports_of_append_turn split: agent_outcome.splits)

lemma report_count_ok_submitTurn:
  assumes ok: "report_count_ok sv"
  shows "report_count_ok (snd (submitTurn sid content outcome sv))"
proof (cases "stage_of sv sid")
  case None
  with ok show ?thesis by (simp add: submitTurn_def)
next
  case (Some stg)
  show ?thesis
  proof (cases "stg = Closed")
    case True
    with ok Some show ?thesis by (simp add: submitTurn_def)
  next
    case False
    show ?thesis
      unfolding report_count_ok_def
    proof
      fix k
      have old: "length (reports_of sv k) = expected_reports sv k"
        using ok by (simp add: report_count_ok_def)
      show "length (reports_of (snd (submitTurn sid content outcome sv)) k) =
            expected_reports (snd (submitTurn sid content outcome sv)) k"
      proof (cases "k = sid")
        case diff: False
        with old Some False show ?thesis
          by (simp add: reports_of_submitTurn reports_of_finalize expected_reports_def
              stage_of_submitTurn split: agent_outcome.splits)
      next
        case True
        from old True Some have cnt: "length (reports_of sv sid) =
            (if stage_rank HRHandoff \<le> stage_rank stg then 1 else 0)"
          by (simp add: expected_reports_def)
        show ?thesis
        proof (cases outcome)
          case AgentFailed
          with cnt Some False True show ?thesis
            by (simp add: reports_of_submitTurn expected_reports_def stage_of_submitTurn)
        next
          case (AgentReply reply fin)
          with cnt Some False True show ?thesis
            by (cases stg; cases fin)
               (simp_all add: reports_of_submitTurn expected_reports_def stage_of_submitTurn
                  reports_of_finalize advance_def)
        qed
      qed
    qed
  qed
qed

lemma report_count_ok_endSession:
  "report_count_ok sv \<Longrightarrow> report_count_ok (snd (endSession sid sv))"
  by (auto simp: endSession_def split: option.splits intro: report_count_ok_forced_end)

lemma length_filter_record_on:
  "length (filter (\<lambda>r. report_session r = k) (record_on rid d notes rs)) =
   length (filter (\<lambda>r. report_session r = k) rs)"
  by (induction rs) simp_all

lemma reports_of_recordDecision:
  "length (reports_of (snd (recordDecision rid d notes sv)) k) = length (reports_of sv k)"
  by (simp add: recordDecision_def reports_of_def length_filter_record_on split: option.splits)

lemma report_count_ok_recordDecision:
  "report_count_ok sv \<Longrightarrow> report_count_ok (snd (recordDecision rid d notes sv))"
  by (simp add: report_count_ok_def reports_of_recordDecision expected_reports_def
      stage_of_recordDecision)

lemma report_count_ok_handle: "report_count_ok sv \<Longrightarrow> report_count_ok (handle c sv)"
proof (cases c)
  case (StartSession cand m new)
  assume "report_count_ok sv"
  with StartSession show ?thesis
    by (simp add: report_count_ok_startSession)
next
  case (SubmitTurn k content outcome)
  assume "report_count_ok sv"
  with SubmitTurn show ?thesis
    by (simp add: report_count_ok_submitTurn)
next
  case (EndSession k)
  assume "report_count_ok sv"
  with EndSession show ?thesis
    by (simp add: report_count_ok_endSession)
next
  case (Sweep idle)
  assume "report_count_ok sv"
  with Sweep show ?thesis
    by (simp add: sweep_def report_count_ok_fold)
next
  case (RecordDecision rid d nt)
  assume "report_count_ok sv"
  with RecordDecision show ?thesis
    by (simp add: report_count_ok_recordDecision)
qed

lemma states_nonempty: "states cs sv \<noteq> []"
  by (cases cs) simp_all

lemma run_simps: "run [] sv = sv" "run (c # cs) sv = run cs (handle c sv)"
  by (simp_all add: run_def states_nonempty)

lemma report_count_ok_run: "report_count_ok sv \<Longrightarrow> report_count_ok (run cs sv)"
  by (induction cs arbitrary: sv) (simp_all add: run_simps report_count_ok_handle)

lemma report_count_ok_empty: "report_count_ok empty_server"
  by (simp add: report_count_ok_def empty_server_def reports_of_def expected_reports_def
      stage_of_def find_session_def)

subsection \<open>Ending a session\<close>

lemma endSession_Closed: "stage_of sv sid = Some Closed \<Longrightarrow> endSession sid sv = (Inr (), sv)"
  by (simp add: endSession_def)

lemma endSession_existing:
  assumes ok: "report_count_ok sv" and ex: "stage_of sv sid = Some stg"
  shows "fst (endSession sid sv) = Inr ()"
    and "stage_of (snd (endSession sid sv)) sid = Some Closed"
    and "length (reports_of (snd (endSession sid sv)) sid) = 1"
proof -
  show "fst (endSession sid sv) = Inr ()"
    using ex by (simp add: endSession_def)
  show closed: "stage_of (snd (endSession sid sv)) sid = Some Closed"
    using ex by (simp add: stage_of_endSession)
  have "report_count_ok (snd (endSession sid sv))"
    using ok by (rule report_count_ok_endSession)
  then have "length (reports_of (snd (endSession sid sv)) sid) =
             expected_reports (snd (endSession sid sv)) sid"
    by (simp add: report_count_ok_def)
  with closed show "length (reports_of (snd (endSession sid sv)) sid) = 1"
    by (simp add: expected_reports_def)
qed

lemma serve_closed:
  "stage_of sv sid = Some Closed \<Longrightarrow>
   fold (\<lambda>sid (answers, sv). (answers @ [fst (endSession sid sv)], snd (endSession sid sv)))
     (replicate n sid) (answers, sv) = (answers @ replicate n (Inr ()), sv)"
proof (induction n arbitrary: answers)
  case 0
  then show ?case by simp
next
  case (Suc n)
  then show ?case
    by (simp add: endSession_Closed replicate_app_Cons_same)
qed

lemma serve_end_requests_same:
  assumes ex: "stage_of sv sid = Some stg"
  shows "serve_end_requests (replicate (Suc n) sid) sv =
         (replicate (Suc n) (Inr ()), snd (endSession sid sv))"
proof -
  have first: "fst (endSession sid sv) = Inr ()"
    using ex by (simp add: endSession_def)
  have closed: "stage_of (snd (endSession sid sv)) sid = Some Closed"
    using ex by (simp add: stage_of_endSession)
  show ?thesis
    using serve_closed [OF closed, of n "[Inr ()]"] first
    by (simp add: serve_end_requests_def)
qed

lemma chat_flow_end_requests:
  assumes "f_type d = Some ''response''" and "f_is_complete d"
  shows "end_requests (snd (chat_run [ChatSessionStarted sid m, ChatOpen, ChatMessage d, ChatEnd]
           chat_initial)) = (if sid = [] then replicate 2 sid else replicate 3 sid)"
    and "end_requests (snd (chat_run [ChatSessionStarted sid m, ChatOpen, ChatMessage d, ChatClose,
           ChatEnd] chat_initial)) = (if sid = [] then replicate 1 sid else replicate 2 sid)"
  using assms
  by (simp_all add: chat_initial_def chat_onmessage_def chat_endSession_def ws_send_def
      ws_close_def post_session_end_def end_frame_def empty_frame_def numeral_2_eq_2
      numeral_3_eq_3)

lemma chat_completion_flow_requests:
  assumes "f_type d = Some ''response''" and "f_is_complete d"
  shows "\<exists>n. end_requests (chat_completion_flow sid d b) = replicate (Suc n) sid \<and>
             (sid \<noteq> [] \<longrightarrow> 1 \<le> n)"
proof (cases b)
  case True
  with chat_flow_end_requests(2) [OF assms, of sid None]
  have "end_requests (chat_completion_flow sid d b) =
        replicate (Suc (if sid = [] then 0 else 1)) sid"
    by (simp add: chat_completion_flow_def numeral_2_eq_2)
  then show ?thesis by (intro exI [of _ "if sid = [] then 0 else 1"]) simp
next
  case False
  with chat_flow_end_requests(1) [OF assms, of sid None]
  have "end_requests (chat_completion_flow sid d b) =
        replicate (Suc (if sid = [] then 1 else 2)) sid"
    by (simp add: chat_completion_flow_def numeral_2_eq_2 numeral_3_eq_3)
  then show ?thesis by (intro exI [of _ "if sid = [] then 1 else 2"]) simp
qed

text \<open>
  C4. For every session of every run of the orchestrator, \<open>endSession\<close> succeeds, and
  so does a second call, which changes nothing: ending a \<open>Closed\<close> session is a no-op.
  Afterwards the session is \<open>Closed\<close> and has exactly one report. The chat page asks for
  the end of its session when the completing response arrives and again when the user
  presses End (by the \<open>end\<close> frame, if the socket is still open, and by the HTTP request);
  every one of these requests succeeds and together they leave the state that one call
  of \<open>endSession\<close> leaves.
\<close>

theorem endSession_idempotent:
  assumes "stage_of (run cs empty_server) sid \<noteq> None"
  shows "fst (endSession sid (run cs empty_server)) = Inr ()
    \<and> endSession sid (snd (endSession sid (run cs empty_server))) =
        (Inr (), snd (endSession sid (run cs empty_server)))
    \<and> stage_of (snd (endSession sid (run cs empty_server))) sid = Some Closed
    \<and> length (reports_of (snd (endSession sid (run cs empty_server))) sid) = 1
    \<and> (stage_of sv sid = Some Closed \<longrightarrow> endSession sid sv = (Inr (), sv))
    \<and> (f_type d = Some ''response'' \<and> f_is_complete d \<longrightarrow>
         (\<exists>n. end_requests (chat_completion_flow sid d b) = replicate (Suc n) sid \<and>
              (sid \<noteq> [] \<longrightarrow> 1 \<le> n) \<and>
              serve_end_requests (end_requests (chat_completion_flow sid d b))
                (run cs empty_server) =
              (replicate (Suc n) (Inr ()), snd (endSession sid (run cs empty_server)))))"
proof -
  let ?sv = "run cs empty_server"
  from assms obtain stg where ex: "stage_of ?sv sid = Some stg" by auto
  have ok: "report_count_ok ?sv"
    by (rule report_count_ok_run [OF report_count_ok_empty])
  note first = endSession_existing [OF ok ex]
  have second: "endSession sid (snd (endSession sid ?sv)) = (Inr (), snd (endSession sid ?sv))"
    by (rule endSession_Closed [OF first(2)])
  have flow: "\<exists>n. end_requests (chat_completion_flow sid d b) = replicate (Suc n) sid \<and>
              (sid \<noteq> [] \<longrightarrow> 1 \<le> n) \<and>
              serve_end_requests (end_requests (chat_completion_flow sid d b)) ?sv =
              (replicate (Suc n) (Inr ()), snd (endSession sid ?sv))"
    if "f_type d = Some ''response''" and "f_is_complete d"
  proof -
    from chat_completion_flow_requests [OF that, of sid b]
    obtain n where n: "end_requests (chat_completion_flow sid d b) = replicate (Suc n) sid"
      "sid \<noteq> [] \<longrightarrow> 1 \<le> n" by blast
    from serve_end_requests_same [OF ex, of n] n show ?thesis by auto
  qed
  from first second flow show ?thesis
    by (auto simp: endSession_Closed)
qed

theorem endSession_idempotent_witness:
  "stage_of (run [StartSession ''ada'' ChatModality ''s1'',
                  SubmitTurn ''s1'' ''Hello'' (AgentReply ''Welcome'' True)] empty_server) ''s1''
     = Some TechnicalInterview
   \<and> endSession ''s1'' (snd (endSession ''s1''
        (run [StartSession ''ada'' ChatModality ''s1'',
              SubmitTurn ''s1'' ''Hello'' (AgentReply ''Welcome'' True)] empty_server))) =
      (Inr (), snd (endSession ''s1''
        (run [StartSession ''ada'' ChatModality ''s1'',
              SubmitTurn ''s1'' ''Hello'' (AgentReply ''Welcome'' True)] empty_server)))
   \<and> reports (snd (endSession ''s1''
        (run [StartSession ''ada'' ChatModality ''s1'',
              SubmitTurn ''s1'' ''Hello'' (AgentReply ''Welcome'' True)] empty_server))) =
      [\<lparr>report_session = ''s1'', report_partial = True, report_decision = None,
        report_notes = [], report_reviewed = False\<rparr>]
   \<and> length (reports_of (snd (endSession ''s1''
        (run [StartSession ''ada'' ChatModality ''s1'',
              SubmitTurn ''s1'' ''Hello'' (AgentReply ''Welcome'' True)] empty_server))) ''s1'') = 1"
proof -
  let ?cs = "[StartSession ''ada'' ChatModality ''s1'',
              SubmitTurn ''s1'' ''Hello'' (AgentReply ''Welcome'' True)]"
  have ex: "stage_of (run ?cs empty_server) ''s1'' = Some TechnicalInterview"
    by code_simp
  then have "stage_of (run ?cs empty_server) ''s1'' \<noteq> None" by simp
  note idem = endSession_idempotent [OF this]
  have reps: "reports (snd (endSession ''s1'' (run ?cs empty_server))) =
      [\<lparr>report_session = ''s1'', report_partial = True, report_decision = None,
        report_notes = [], report_reviewed = False\<rparr>]"
    by code_simp
  from ex idem reps show ?thesis by blast
qed

subsection \<open>Recording a decision\<close>

lemma find_record_on:
  "find (\<lambda>r. report_session r = k) (record_on rid d notes rs) =
     (if k = rid
      then map_option (\<lambda>r. r\<lparr>report_decision := Some d, report_notes := notes,
                               report_reviewed := True\<rparr>)
             (find (\<lambda>r. report_session r = k) rs)
      else find (\<lambda>r. report_session r = k) rs)"
  by (induction rs) auto

lemma recorded_decision_recordDecision:
  "recorded_decision (snd (recordDecision rid' d' notes sv)) rid =
     (if rid = rid' \<and> fst (recordDecision rid' d' notes sv) = Inr () then Some d'
      else recorded_decision sv rid)"
  by (auto simp: recordDecision_def recorded_decision_def find_report_def find_record_on
      split: option.splits)

lemma recordDecision_decided:
  "recorded_decision sv rid = Some d \<Longrightarrow>
   recordDecision rid d' notes sv = (Inl DecisionAlreadyRecorded, sv)"
  by (auto simp: recordDecision_def recorded_decision_def split: option.splits)

lemma find_report_set_stage: "find_report (set_stage k stg sv) rid = find_report sv rid"
  by (simp add: find_report_def set_stage_def)

lemma find_report_append_turn: "find_report (append_turn k r c sv) rid = find_report sv rid"
  by (simp add: find_report_def append_turn_def)

lemma find_report_finalize:
  "find_report sv rid = Some r \<Longrightarrow> find_report (finalize k p sv) rid = Some r"
  by (simp add: find_report_def finalize_def find_app)

lemma find_report_end_if_active:
  "find_report sv rid = Some r \<Longrightarrow> find_report (end_if_active k sv) rid = Some r"
  by (simp add: end_if_active_def forced_end_def find_report_finalize find_report_set_stage
      split: option.splits)

lemma find_report_fold:
  "find_report sv rid = Some r \<Longrightarrow> find_report (fold end_if_active ks sv) rid = Some r"
  by (induction ks arbitrary: sv) (simp_all add: find_report_end_if_active)

lemma find_report_startSession:
  "find_report sv rid = Some r \<Longrightarrow> find_report (startSession c m sid sv) rid = Some r"
proof -
  assume "find_report sv rid = Some r"
  then have "find_report (fold end_if_active (sessions_of_candidate sv c) sv) rid = Some r"
    by (rule find_report_fold)
  then show ?thesis
    by (simp add: startSession_def Let_def find_report_def)
qed

lemma find_report_submitTurn:
  "find_report sv rid = Some r \<Longrightarrow>
   find_report (snd (submitTurn sid content outcome sv)) rid = Some r"
  by (simp add: submitTurn_def Let_def find_report_finalize find_report_set_stage
      find_report_append_turn split: option.splits agent_outcome.splits)

lemma find_report_endSession:
  "find_report sv rid = Some r \<Longrightarrow> find_report (snd (endSession sid sv)) rid = Some r"
  by (simp add: endSession_def forced_end_def find_report_finalize find_report_set_stage
      split: option.splits)

lemma handle_keeps_decision:
  assumes "recorded_decision sv rid = Some d"
  shows "recorded_decision (handle c sv) rid = Some d"
proof -
  from assms obtain r where r: "find_report sv rid = Some r" "report_decision r = Some d"
    by (auto simp: recorded_decision_def split: option.splits)
  show ?thesis
  proof (cases c)
    case (StartSession cand m new)
    with r assms find_report_startSession [OF r(1), of cand m new] show ?thesis
      by (simp add: recorded_decision_def)
  next
    case (SubmitTurn k content outcome)
    with r find_report_submitTurn [OF r(1), of k content outcome] show ?thesis
      by (simp add: recorded_decision_def)
  next
    case (EndSession k)
    with r find_report_endSession [OF r(1), of k] show ?thesis
      by (simp add: recorded_decision_def)
  next
    case (Sweep idle)
    with r find_report_fold [OF r(1), of idle] show ?thesis
      by (simp add: recorded_decision_def sweep_def)
  next
    case (RecordDecision rid' d' nt)
    with assms recordDecision_decided [OF assms, of d' nt] show ?thesis
      by (auto simp: recorded_decision_recordDecision)
  qed
qed

lemma run_keeps_decision:
  "recorded_decision sv rid = Some d \<Longrightarrow> recorded_decision (run cs sv) rid = Some d"
  by (induction cs arbitrary: sv) (simp_all add: run_simps handle_keeps_decision)

lemma decision_click_rendered:
  assumes "(t, Inr (HandleDecision r dec)) \<in> set (table_actions item) \<union> set (modal_actions (Some item))"
  shows "\<exists>rep. latest_report item = Some rep \<and> report_id rep = r \<and> \<not> truthy (hr_decision rep)"
proof -
  from assms have "decision_guard item \<and> (\<exists>d. Inr (HandleDecision r dec) = decision_click item d)"
    using table_actions_cases [of t "Inr (HandleDecision r dec)" item]
      modal_actions_cases [of t "Inr (HandleDecision r dec)" "Some item"] by auto
  then obtain d where g: "decision_guard item" and c: "Inr (HandleDecision r dec) = decision_click item d"
    by blast
  from decision_click_guarded [OF g, of d] c show ?thesis by auto
qed

lemma decision_string_truthy: "truthy (map_option decision_string x) \<longleftrightarrow> x \<noteq> None"
proof (cases x)
  case None
  then show ?thesis by (simp add: truthy_def)
next
  case (Some d)
  then show ?thesis by (cases d) (simp_all add: truthy_def)
qed

lemma listed_click:
  assumes found: "find_report sv k = Some r"
    and listed: "lists_report item r"
    and click: "(t, Inr (HandleDecision rid dec)) \<in> set (table_actions item) \<union> set (modal_actions (Some item))"
  shows "rid = k" and "latest_decision item = None" and "report_decision r = None"
    and "fst (recordDecision k dec [] sv) = Inr ()"
proof -
  from decision_click_rendered [OF click] obtain rep where
    rep: "latest_report item = Some rep" "report_id rep = rid" "\<not> truthy (hr_decision rep)"
    by blast
  from listed rep(1) have l: "report_id rep = report_session r"
      "hr_decision rep = map_option decision_string (report_decision r)"
    by (simp_all add: lists_report_def)
  from found have "report_session r = k"
    by (auto simp: find_report_def dest: find_holds)
  with l(1) rep(2) show "rid = k" by simp
  from rep(3) l(2) show none: "report_decision r = None"
    by (simp add: decision_string_truthy)
  with l(2) rep(1) show "latest_decision item = None"
    by (simp add: latest_decision_def)
  from found none show "fst (recordDecision k dec [] sv) = Inr ()"
    by (simp add: recordDecision_def)
qed

text \<open>
  C5. An HR decision is recorded at most once per report: once a report carries a
  decision, it carries the same decision after every further run of calls, and every
  further \<open>recordDecision\<close> on it fails with \<open>DecisionAlreadyRecorded\<close>; a successful
  \<open>recordDecision\<close> puts the report into that state. The dashboard renders a button
  that calls \<open>handleDecision\<close>, in the table row or in the detail modal, only for an entry
  whose listed report has no decision (\<open>hr_decision\<close> is \<open>null\<close>); the call is made with
  the identifier of that report, and the request it sends is a \<open>recordDecision\<close> that
  succeeds on the state the entry was listed from.
\<close>

theorem decision_recorded_once:
  "(recorded_decision sv rid = Some d \<longrightarrow>
      recorded_decision (run cs sv) rid = Some d \<and>
      recordDecision rid d' nts (run cs sv) = (Inl DecisionAlreadyRecorded, run cs sv))
   \<and> (fst (recordDecision rid d nts sv) = Inr () \<longrightarrow>
      recorded_decision (snd (recordDecision rid d nts sv)) rid = Some d)
   \<and> (find_report sv k = Some r \<and> lists_report item r \<and>
      (t, Inr (HandleDecision rid' dec)) \<in> set (table_actions item) \<union> set (modal_actions (Some item)) \<longrightarrow>
        rid' = k \<and> latest_decision item = None \<and> report_decision r = None \<and>
        handle (handleDecision rid' dec) sv = snd (recordDecision k dec [] sv) \<and>
        fst (recordDecision k dec [] sv) = Inr ())"
proof (intro conjI impI)
  assume a: "recorded_decision sv rid = Some d"
  then show "recorded_decision (run cs sv) rid = Some d"
    by (rule run_keeps_decision)
  then show "recordDecision rid d' nts (run cs sv) = (Inl DecisionAlreadyRecorded, run cs sv)"
    by (rule recordDecision_decided)
next
  assume "fst (recordDecision rid d nts sv) = Inr ()"
  then show "recorded_decision (snd (recordDecision rid d nts sv)) rid = Some d"
    by (simp add: recorded_decision_recordDecision)
next
  assume a: "find_report sv k = Some r \<and> lists_report item r \<and>
      (t, Inr (HandleDecision rid' dec)) \<in> set (table_actions item) \<union> set (modal_actions (Some item))"
  then have f: "find_report sv k = Some r" and l: "lists_report item r"
    and c: "(t, Inr (HandleDecision rid' dec)) \<in> set (table_actions item) \<union> set (modal_actions (Some item))"
    by simp_all
  note facts = listed_click [OF f l c]
  from facts show "rid' = k" and "latest_decision item = None" and "report_decision r = None"
    and "fst (recordDecision k dec [] sv) = Inr ()"
    by simp_all
  from facts(1) show "handle (handleDecision rid' dec) sv = snd (recordDecision k dec [] sv)"
    by (simp add: handleDecision_def)
qed

theorem decision_recorded_once_witness:
  "(''Approve'', Inr (HandleDecision ''s1'' Approve)) \<in> set (table_actions
      \<lparr>candidate = \<lparr>cand_id = ''ada'', cand_name = ''Ada'', cand_email = ''ada@example.org'',
                    job_role = ''Software Engineer'', status = ''hr_review'', created_at = ''''\<rparr>,
       latest_report = Some \<lparr>report_id = ''s1'', overall_score = 80, technical_score = 75,
                    behavioral_score = 85, recommendation = ''hire'', hr_reviewed = False,
                    hr_decision = None\<rparr>,
       sessions_count = 1\<rparr>)
   \<and> fst (recordDecision ''s1'' Approve []
        (run [StartSession ''ada'' ChatModality ''s1'', EndSession ''s1''] empty_server)) = Inr ()
   \<and> recorded_decision
        (run [StartSession ''ada'' VoiceModality ''s2'', RecordDecision ''s1'' Reject ''no'',
              EndSession ''s2'']
          (snd (recordDecision ''s1'' Approve []
            (run [StartSession ''ada'' ChatModality ''s1'', EndSession ''s1''] empty_server))))
        ''s1'' = Some Approve
   \<and> fst (recordDecision ''s1'' Hold ''changed my mind''
        (run [StartSession ''ada'' VoiceModality ''s2'', RecordDecision ''s1'' Reject ''no'',
              EndSession ''s2'']
          (snd (recordDecision ''s1'' Approve []
            (run [StartSession ''ada'' ChatModality ''s1'', EndSession ''s1''] empty_server))))) =
      Inl DecisionAlreadyRecorded"
proof -
  let ?item = "\<lparr>candidate = \<lparr>cand_id = ''ada'', cand_name = ''Ada'', cand_email = ''ada@example.org'',
                    job_role = ''Software Engineer'', status = ''hr_review'', created_at = ''''\<rparr>,
       latest_report = Some \<lparr>report_id = ''s1'', overall_score = 80, technical_score = 75,
                    behavioral_score = 85, recommendation = ''hire'', hr_reviewed = False,
                    hr_decision = None\<rparr>,
       sessions_count = 1\<rparr>"
  let ?r = "\<lparr>report_session = ''s1'', report_partial = True, report_decision = None,
             report_notes = [], report_reviewed = False\<rparr>"
  let ?sv = "run [StartSession ''ada'' ChatModality ''s1'', EndSession ''s1''] empty_server"
  let ?cs = "[StartSession ''ada'' VoiceModality ''s2'', RecordDecision ''s1'' Reject ''no'',
              EndSession ''s2'']"
  have found: "find_report ?sv ''s1'' = Some ?r"
    by code_simp
  have listed: "lists_report ?item ?r"
    by (simp add: lists_report_def)
  have click: "(''Approve'', Inr (HandleDecision ''s1'' Approve)) \<in> set (table_actions ?item)"
    by (simp add: table_actions_def decision_guard_def truthy_def decision_click_def
        latest_report_id_def)
  then have click': "(''Approve'', Inr (HandleDecision ''s1'' Approve))
      \<in> set (table_actions ?item) \<union> set (modal_actions (Some ?item))"
    by blast
  from decision_recorded_once [of ?sv _ _ _ _ _ "''s1''" ?r ?item "''Approve''" "''s1''" Approve]
    found listed click'
  have ok: "fst (recordDecision ''s1'' Approve [] ?sv) = Inr ()"
    by blast
  with decision_recorded_once [of ?sv "''s1''" Approve]
  have rec: "recorded_decision (snd (recordDecision ''s1'' Approve [] ?sv)) ''s1'' = Some Approve"
    by blast
  with decision_recorded_once
    [of "snd (recordDecision ''s1'' Approve [] ?sv)" "''s1''" Approve ?cs Hold "''changed my mind''"]
  have "recorded_decision (run ?cs (snd (recordDecision ''s1'' Approve [] ?sv))) ''s1'' = Some Approve"
    and "recordDecision ''s1'' Hold ''changed my mind''
          (run ?cs (snd (recordDecision ''s1'' Approve [] ?sv))) =
         (Inl DecisionAlreadyRecorded, run ?cs (snd (recordDecision ''s1'' Approve [] ?sv)))"
    by blast+
  with click ok show ?thesis by simp
qed


end
